theory Spec2Isabelle
  imports Complex_Main "HOL-Library.Monad_Syntax"
begin

section \<open>Values\<close>

text \<open>
  The scene graph of \<^verbatim>\<open>src/objects/object.js\<close> (\<^verbatim>\<open>xeogl.Object\<close>), as a store of
  objects addressed by reference. JavaScript object references are never dangling, so the
  store is a total function; \<^verbatim>\<open>null\<close> and \<^verbatim>\<open>undefined\<close> are \<open>None\<close>.
  Numbers are modelled as reals (the source keeps them in \<^verbatim>\<open>Float32Array\<close>s); a
  three- or four-element vector is a tuple, a 4x4 matrix is the list of its sixteen
  elements in the column-major order of the source.
\<close>

type_synonym ref = nat
type_synonym ident = string
type_synonym vec3 = "real \<times> real \<times> real"
type_synonym vec4 = "real \<times> real \<times> real \<times> real"
type_synonym mat4 = "real list"

subsection \<open>The parts of xeogl.math the object code calls\<close>

text \<open>
  \<^verbatim>\<open>xeogl.math\<close> is not under src/. The constants and functions of this subsection
  follow the spec's words: angles are given in degrees; the quaternion of an angle-axis
  pair takes the axis as given, without normalising it; quaternions have the components
  x, y, z, w and are multiplied by the quaternion product; Euler angles are in XYZ order;
  the local matrix is translate * rotate * scale in one 4x4 matrix; matrices are
  multiplied as 4x4 matrices, the first argument on the left.
\<close>

text \<open>Modelled from the spec: \<^verbatim>\<open>xeogl.math.DEGTORAD\<close>, the radians of one degree.\<close>

definition DEGTORAD :: real where
  "DEGTORAD = pi / 180"

text \<open>Modelled from the spec: the value of \<^verbatim>\<open>xeogl.math.vec3()\<close>, a new zero vector.\<close>

definition vec3zero :: vec3 where
  "vec3zero = (0, 0, 0)"

text \<open>Modelled from the spec: \<^verbatim>\<open>xeogl.math.identityQuaternion()\<close>.\<close>

definition identityQuaternion :: vec4 where
  "identityQuaternion = (0, 0, 0, 1)"

text \<open>Modelled from the spec: \<^verbatim>\<open>xeogl.math.identityMat4()\<close>.\<close>

definition identityMat4 :: mat4 where
  "identityMat4 = [1, 0, 0, 0,  0, 1, 0, 0,  0, 0, 1, 0,  0, 0, 0, 1]"

text \<open>
  Modelled from the spec: \<^verbatim>\<open>xeogl.math.angleAxisToQuaternion\<close>, the quaternion of an
  axis (taken as given) and an angle in radians.
\<close>

definition angleAxisToQuaternion :: "vec4 \<Rightarrow> vec4" where
  "angleAxisToQuaternion angleAxis =
     (case angleAxis of (x, y, z, angle) \<Rightarrow>
        let halfAngle = angle / 2; fsin = sin halfAngle
        in (fsin * x, fsin * y, fsin * z, cos halfAngle))"

text \<open>
  Modelled from the spec: \<^verbatim>\<open>xeogl.math.mulQuaternions(p, q, dest)\<close>, the quaternion
  product \<open>p * q\<close>. (\<^verbatim>\<open>rotateOnWorldAxis\<close> in the source calls it with the new
  quaternion first where its comment says \<^verbatim>\<open>premultiply\<close>.)
\<close>

definition mulQuaternions :: "vec4 \<Rightarrow> vec4 \<Rightarrow> vec4" where
  "mulQuaternions p q =
     (case p of (p0, p1, p2, p3) \<Rightarrow> case q of (q0, q1, q2, q3) \<Rightarrow>
     (p3 * q0 + p0 * q3 + p1 * q2 - p2 * q1,
      p3 * q1 + p1 * q3 + p2 * q0 - p0 * q2,
      p3 * q2 + p2 * q3 + p0 * q1 - p1 * q0,
      p3 * q3 - p0 * q0 - p1 * q1 - p2 * q2))"

text \<open>
  Modelled from the spec: \<^verbatim>\<open>xeogl.math.eulerToQuaternion\<close> for the order XYZ, the
  quaternion of Euler angles given in degrees.
\<close>

definition eulerToQuaternion :: "vec3 \<Rightarrow> vec4" where
  "eulerToQuaternion euler =
     (case euler of (ex, ey, ez) \<Rightarrow>
      let a = (ex * DEGTORAD) / 2; b = (ey * DEGTORAD) / 2; c = (ez * DEGTORAD) / 2;
          c1 = cos a; c2 = cos b; c3 = cos c;
          s1 = sin a; s2 = sin b; s3 = sin c
      in (s1 * c2 * c3 + c1 * s2 * s3,
          c1 * s2 * c3 - s1 * c2 * s3,
          c1 * c2 * s3 + s1 * s2 * c3,
          c1 * c2 * c3 - s1 * s2 * s3))"

text \<open>
  Modelled from the spec: \<^verbatim>\<open>xeogl.math.composeMat4\<close>, the matrix translate * rotate *
  scale of a position, a quaternion and a scale.
\<close>

definition composeMat4 :: "vec3 \<Rightarrow> vec4 \<Rightarrow> vec3 \<Rightarrow> mat4" where
  "composeMat4 pos q sc =
     (case pos of (px, py, pz) \<Rightarrow> case q of (x, y, z, w) \<Rightarrow> case sc of (sx, sy, sz) \<Rightarrow>
      let x2 = x + x; y2 = y + y; z2 = z + z;
          xx = x * x2; xy = x * y2; xz = x * z2;
          yy = y * y2; yz = y * z2; zz = z * z2;
          wx = w * x2; wy = w * y2; wz = w * z2
      in [(1 - (yy + zz)) * sx, (xy + wz) * sx, (xz - wy) * sx, 0,
          (xy - wz) * sy, (1 - (xx + zz)) * sy, (yz + wx) * sy, 0,
          (xz + wy) * sz, (yz - wx) * sz, (1 - (xx + yy)) * sz, 0,
          px, py, pz, 1])"

text \<open>
  Modelled from the spec: \<^verbatim>\<open>xeogl.math.mulMat4(a, b, dest)\<close>, the matrix product
  \<open>a * b\<close>. Element \<open>4 * c + r\<close> of a matrix is its entry in row \<open>r\<close> and column \<open>c\<close>.
\<close>

definition mulMat4 :: "mat4 \<Rightarrow> mat4 \<Rightarrow> mat4" where
  "mulMat4 a b =
     map (\<lambda>i. a ! (i mod 4) * b ! (4 * (i div 4))
            + a ! (4 + i mod 4) * b ! (4 * (i div 4) + 1)
            + a ! (8 + i mod 4) * b ! (4 * (i div 4) + 2)
            + a ! (12 + i mod 4) * b ! (4 * (i div 4) + 3))
       [0, 1, 2, 3, 4, 5, 6, 7, 8, 9, 10, 11, 12, 13, 14, 15]"

text \<open>
  Two conversions of \<^verbatim>\<open>xeogl.math\<close> are called by the object code, but no statement
  below depends on what they compute, and the spec does not fix them: they are
  parameters of the operations that call them.
\<close>

record xmath =
  quaternionToEuler :: "vec4 \<Rightarrow> vec3"
  decomposeMat4 :: "mat4 \<Rightarrow> vec3 \<times> vec4 \<times> vec3"

section \<open>Objects and scenes\<close>

text \<open>
  The fields of a \<^verbatim>\<open>xeogl.Object\<close>, named as in \<^verbatim>\<open>_init\<close> without the underscore.
  \<open>oid\<close> and \<open>scene\<close> are the component's \<^verbatim>\<open>id\<close> and the \<^verbatim>\<open>id\<close> of its scene;
  \<open>highlited\<close> is the property of that spelling which \<^verbatim>\<open>addChild\<close> assigns;
  \<open>aabbHelper\<close> and \<open>obbHelper\<close> hold the \<^verbatim>\<open>visible\<close> flag of the helper mesh, once
  it exists.
\<close>

record obj =
  oid :: ident
  scene :: ident
  guid :: "string option"
  entityType :: "string option"
  parent :: "ref option"
  childList :: "ref list"
  childMap :: "ident \<rightharpoonup> ref"
  childIDs :: "ident list option"
  aabb :: "real list option"
  aabbDirty :: bool
  obb :: "real list option"
  obbDirty :: bool
  scale :: vec3
  quaternion :: vec4
  rotation :: vec3
  position :: vec3
  localMatrix :: mat4
  worldMatrix :: mat4
  worldNormalMatrix :: mat4
  localMatrixDirty :: bool
  worldMatrixDirty :: bool
  worldNormalMatrixDirty :: bool
  visible :: bool
  culled :: bool
  pickable :: bool
  clippable :: bool
  collidable :: bool
  castShadow :: bool
  receiveShadow :: bool
  outlined :: bool
  ghosted :: bool
  highlighted :: bool
  selected :: bool
  colorize :: "vec4 option"
  highlited :: "bool option"
  layer :: "int option"
  stationary :: "bool option"
  billboard :: "string option"
  solid :: "bool option"
  aabbHelper :: "bool option"
  obbHelper :: "bool option"

text \<open>
  Modelled from the spec: the component base class, the scene and the renderer are not
  under src/; the spec leaves them to collaborators that provide identity, an
  event-emission primitive, a diagnostic channel and the scene's registries. What the
  object code hands to them is kept as data: the
  diagnostics of \<^verbatim>\<open>this.warn\<close> and \<^verbatim>\<open>this.error\<close>, the calls of the scene's entity
  hooks, the events fired, and the calls of \<^verbatim>\<open>_renderer.imageDirty\<close>. Each is recorded
  in the order of the calls.
\<close>

datatype message =
    WarnObjectNotFound ident
  | ErrorNotAnObject ident
  | WarnAlreadyChild ident
  | ErrorNotSameScene ident

datatype hook =
    EntityTypeRemoved ref string
  | EntityTypeAssigned ref string
  | EntityVisibilityUpdated ref bool
  | EntityGhostedUpdated ref bool
  | EntitySelectedUpdated ref bool
  | EntityHighlightedUpdated ref bool

record state =
  objs :: "ref \<Rightarrow> obj"
  sceneObjects :: "ident \<Rightarrow> ident \<rightharpoonup> ref"
  rootObjects :: "ident \<Rightarrow> ident \<rightharpoonup> ref"
  reports :: "(ref \<times> message) list"
  sceneHooks :: "hook list"
  fired :: "(ref \<times> string) list"
  imageDirtyCalls :: nat

definition updObj :: "ref \<Rightarrow> (obj \<Rightarrow> obj) \<Rightarrow> state \<Rightarrow> state" where
  "updObj r f s = s\<lparr>objs := (objs s)(r := f (objs s r))\<rparr>"

definition report :: "ref \<Rightarrow> message \<Rightarrow> state \<Rightarrow> state" where
  "report this m s = s\<lparr>reports := reports s @ [(this, m)]\<rparr>"

definition callHook :: "hook \<Rightarrow> state \<Rightarrow> state" where
  "callHook h s = s\<lparr>sceneHooks := sceneHooks s @ [h]\<rparr>"

definition fire :: "ref \<Rightarrow> string \<Rightarrow> state \<Rightarrow> state" where
  "fire this ev s = s\<lparr>fired := fired s @ [(this, ev)]\<rparr>"

definition imageDirty :: "state \<Rightarrow> state" where
  "imageDirty s = s\<lparr>imageDirtyCalls := Suc (imageDirtyCalls s)\<rparr>"

text \<open>
  A \<^verbatim>\<open>for\<close> loop over an array that the loop body does not change. The operations return
  \<open>None\<close> when they do not return: the recursion over the children and the walk over the
  parents are bounded by a first argument, and a bound that is used up stands for a
  recursion or a loop that does not end (on a cyclic graph); an uncaught
  \<^verbatim>\<open>TypeError\<close> is \<open>None\<close> as well.
\<close>

fun forEach :: "('a \<Rightarrow> 's \<Rightarrow> 's option) \<Rightarrow> 'a list \<Rightarrow> 's \<Rightarrow> 's option" where
  "forEach f [] s = Some s"
| "forEach f (x # xs) s = (case f x s of None \<Rightarrow> None | Some s' \<Rightarrow> forEach f xs s')"

section \<open>Transform management\<close>

definition markWorldDirty :: "obj \<Rightarrow> obj" where
  "markWorldDirty ob = ob\<lparr>worldMatrixDirty := True, worldNormalMatrixDirty := True,
     aabbDirty := True, obbDirty := True\<rparr>"

fun setWorldMatrixDirty :: "nat \<Rightarrow> ref \<Rightarrow> state \<Rightarrow> state option" where
  "setWorldMatrixDirty 0 this s = None"
| "setWorldMatrixDirty (Suc fuel) this s =
     (let s1 = updObj this markWorldDirty s
      in forEach (\<lambda>c s'. setWorldMatrixDirty fuel c s') (childList (objs s1 this)) s1)"

definition setLocalMatrixDirty :: "nat \<Rightarrow> ref \<Rightarrow> state \<Rightarrow> state option" where
  "setLocalMatrixDirty fuel this s =
     setWorldMatrixDirty fuel this (updObj this (\<lambda>ob. ob\<lparr>localMatrixDirty := True\<rparr>) s)"

definition buildLocalMatrix :: "ref \<Rightarrow> state \<Rightarrow> state" where
  "buildLocalMatrix this s =
     updObj this (\<lambda>ob. ob\<lparr>localMatrix := composeMat4 (position ob) (quaternion ob) (scale ob),
                          localMatrixDirty := False\<rparr>) s"

text \<open>
  \<^verbatim>\<open>_buildWorldMatrix\<close>. Reading \<^verbatim>\<open>this._parent.worldMatrix\<close> runs the parent's getter,
  which rebuilds the parent's world matrix first when that is dirty; both the local and the
  world matrix have sixteen elements, so the copying loop of the root case is an assignment.
\<close>

fun buildWorldMatrix :: "nat \<Rightarrow> ref \<Rightarrow> state \<Rightarrow> state option" where
  "buildWorldMatrix 0 this s = None"
| "buildWorldMatrix (Suc fuel) this s =
     (let s1 = (if localMatrixDirty (objs s this) then buildLocalMatrix this s else s)
      in case parent (objs s1 this) of
           None \<Rightarrow>
             Some (updObj this (\<lambda>ob. ob\<lparr>worldMatrix := localMatrix ob,
                                         worldMatrixDirty := False\<rparr>) s1)
         | Some p \<Rightarrow>
             (case (if worldMatrixDirty (objs s1 p) then buildWorldMatrix fuel p s1 else Some s1) of
                None \<Rightarrow> None
              | Some s2 \<Rightarrow>
                  Some (updObj this
                    (\<lambda>ob. ob\<lparr>worldMatrix := mulMat4 (worldMatrix (objs s2 p)) (localMatrix ob),
                              worldMatrixDirty := False\<rparr>) s2)))"

definition get_worldMatrix :: "nat \<Rightarrow> ref \<Rightarrow> state \<Rightarrow> (mat4 \<times> state) option" where
  "get_worldMatrix fuel this s =
     (case (if worldMatrixDirty (objs s this) then buildWorldMatrix fuel this s else Some s) of
        None \<Rightarrow> None
      | Some s' \<Rightarrow> Some (worldMatrix (objs s' this), s'))"

definition get_matrix :: "ref \<Rightarrow> state \<Rightarrow> mat4 \<times> state" where
  "get_matrix this s =
     (let s' = (if localMatrixDirty (objs s this) then buildLocalMatrix this s else s)
      in (localMatrix (objs s' this), s'))"

section \<open>Boundary methods\<close>

text \<open>
  \<^verbatim>\<open>_setBoundaryDirty\<close> and its two local functions. The pair carried through the walks is
  the state and the \<^verbatim>\<open>notifications\<close> collected so far (\<^verbatim>\<open>lenNotifications\<close> is the
  length of the list, reset to 0 at the start of each call).
\<close>

definition markBoundaryDirty :: "ref \<Rightarrow> state \<times> ref list \<Rightarrow> state \<times> ref list" where
  "markBoundaryDirty object sn =
     (if aabbDirty (objs (fst sn) object)
      then (updObj object (\<lambda>ob. ob\<lparr>aabbDirty := True, obbDirty := True\<rparr>) (fst sn),
            snd sn @ [object])
      else sn)"

fun setParentBoundariesDirty ::
  "nat \<Rightarrow> ref option \<Rightarrow> state \<times> ref list \<Rightarrow> (state \<times> ref list) option" where
  "setParentBoundariesDirty fuel None sn = Some sn"
| "setParentBoundariesDirty 0 (Some object) sn = None"
| "setParentBoundariesDirty (Suc fuel) (Some object) sn =
     (let sn1 = markBoundaryDirty object sn
      in setParentBoundariesDirty fuel (parent (objs (fst sn1) object)) sn1)"

fun setSubtreeBoundariesDirty ::
  "nat \<Rightarrow> ref \<Rightarrow> state \<times> ref list \<Rightarrow> (state \<times> ref list) option" where
  "setSubtreeBoundariesDirty 0 object sn = None"
| "setSubtreeBoundariesDirty (Suc fuel) object sn =
     (case forEach (\<lambda>c sn'. setSubtreeBoundariesDirty fuel c sn')
             (childList (objs (fst sn) object)) sn of
        None \<Rightarrow> None
      | Some sn1 \<Rightarrow> Some (markBoundaryDirty object sn1))"

definition setBoundaryDirty :: "nat \<Rightarrow> ref \<Rightarrow> state \<Rightarrow> state option" where
  "setBoundaryDirty fuel this s =
     (case setSubtreeBoundariesDirty fuel this (s, []) of
        None \<Rightarrow> None
      | Some sn1 \<Rightarrow>
          (case setParentBoundariesDirty fuel (Some this) sn1 of
             None \<Rightarrow> None
           | Some sn2 \<Rightarrow> Some (fold (\<lambda>n s'. fire n ''boundary'' s') (snd sn2) (fst sn2))))"

section \<open>Transform properties\<close>

text \<open>
  The setters of \<^verbatim>\<open>position\<close>, \<^verbatim>\<open>rotation\<close>, \<^verbatim>\<open>quaternion\<close>, \<^verbatim>\<open>scale\<close> and
  \<^verbatim>\<open>matrix\<close>. An argument that is \<^verbatim>\<open>undefined\<close> or \<^verbatim>\<open>null\<close> is \<open>None\<close> and takes the
  setter's default.
\<close>

definition set_position :: "nat \<Rightarrow> ref \<Rightarrow> vec3 option \<Rightarrow> state \<Rightarrow> state option" where
  "set_position fuel this v s = do {
     let s1 = updObj this
        (\<lambda>ob. ob\<lparr>position := (case v of None \<Rightarrow> (0, 0, 0) | Some x \<Rightarrow> x)\<rparr>) s;
     s2 \<leftarrow> setLocalMatrixDirty fuel this s1;
     s3 \<leftarrow> setBoundaryDirty fuel this s2;
     Some (imageDirty s3) }"

definition set_rotation :: "nat \<Rightarrow> ref \<Rightarrow> vec3 option \<Rightarrow> state \<Rightarrow> state option" where
  "set_rotation fuel this v s = do {
     let s0 = updObj this
        (\<lambda>ob. ob\<lparr>rotation := (case v of None \<Rightarrow> (0, 0, 0) | Some x \<Rightarrow> x)\<rparr>) s;
     let s1 = updObj this (\<lambda>ob. ob\<lparr>quaternion := eulerToQuaternion (rotation ob)\<rparr>) s0;
     s2 \<leftarrow> setLocalMatrixDirty fuel this s1;
     s3 \<leftarrow> setBoundaryDirty fuel this s2;
     Some (imageDirty s3) }"

definition set_quaternion ::
  "xmath \<Rightarrow> nat \<Rightarrow> ref \<Rightarrow> vec4 option \<Rightarrow> state \<Rightarrow> state option" where
  "set_quaternion M fuel this v s = do {
     let s0 = updObj this
        (\<lambda>ob. ob\<lparr>quaternion := (case v of None \<Rightarrow> (0, 0, 0, 1) | Some x \<Rightarrow> x)\<rparr>) s;
     let s1 = updObj this (\<lambda>ob. ob\<lparr>rotation := quaternionToEuler M (quaternion ob)\<rparr>) s0;
     s2 \<leftarrow> setLocalMatrixDirty fuel this s1;
     s3 \<leftarrow> setBoundaryDirty fuel this s2;
     Some (imageDirty s3) }"

definition set_scale :: "nat \<Rightarrow> ref \<Rightarrow> vec3 option \<Rightarrow> state \<Rightarrow> state option" where
  "set_scale fuel this v s = do {
     let s1 = updObj this
        (\<lambda>ob. ob\<lparr>scale := (case v of None \<Rightarrow> (1, 1, 1) | Some x \<Rightarrow> x)\<rparr>) s;
     s2 \<leftarrow> setLocalMatrixDirty fuel this s1;
     s3 \<leftarrow> setBoundaryDirty fuel this s2;
     Some (imageDirty s3) }"

definition set_matrix ::
  "xmath \<Rightarrow> nat \<Rightarrow> ref \<Rightarrow> mat4 option \<Rightarrow> state \<Rightarrow> state option" where
  "set_matrix M fuel this v s = do {
     let s0 = updObj this
        (\<lambda>ob. ob\<lparr>localMatrix := (case v of None \<Rightarrow> identityMat4 | Some x \<Rightarrow> x)\<rparr>) s;
     let s1 = updObj this
        (\<lambda>ob. case decomposeMat4 M (localMatrix ob) of
                 (p, q, sc) \<Rightarrow> ob\<lparr>position := p, quaternion := q, scale := sc\<rparr>) s0;
     let s2 = updObj this (\<lambda>ob. ob\<lparr>localMatrixDirty := False\<rparr>) s1;
     s3 \<leftarrow> setWorldMatrixDirty fuel this s2;
     s4 \<leftarrow> setBoundaryDirty fuel this s3;
     Some (imageDirty s4) }"

section \<open>Inherited state\<close>

text \<open>
  The setters of \<^verbatim>\<open>visible\<close>, \<^verbatim>\<open>highlighted\<close>, \<^verbatim>\<open>ghosted\<close>, \<^verbatim>\<open>selected\<close>,
  \<^verbatim>\<open>culled\<close>, \<^verbatim>\<open>clippable\<close>, \<^verbatim>\<open>collidable\<close>, \<^verbatim>\<open>pickable\<close>, \<^verbatim>\<open>colorize\<close>,
  \<^verbatim>\<open>opacity\<close>, \<^verbatim>\<open>outlined\<close>, \<^verbatim>\<open>castShadow\<close> and \<^verbatim>\<open>receiveShadow\<close> have one shape in
  the source: store the value on this object, assign the same property on every element of
  \<^verbatim>\<open>_childList\<close> in order (which runs the child's setter), and, for the first four, call
  the scene's hook when \<^verbatim>\<open>_entityType\<close> is set. \<open>setInherited\<close> is that shape; each
  setter below gives it its own store and hook. A boolean argument is \<open>None\<close> when it is
  \<^verbatim>\<open>undefined\<close> or \<^verbatim>\<open>null\<close>.
\<close>

definition truthyStr :: "string option \<Rightarrow> bool" where
  "truthyStr t = (case t of None \<Rightarrow> False | Some x \<Rightarrow> x \<noteq> [])"

fun setInherited ::
  "nat \<Rightarrow> (obj \<Rightarrow> obj) \<Rightarrow> (ref \<Rightarrow> hook) option \<Rightarrow> ref \<Rightarrow> state \<Rightarrow> state option" where
  "setInherited 0 store hk this s = None"
| "setInherited (Suc fuel) store hk this s =
     (let s1 = updObj this store s
      in case forEach (\<lambda>c s'. setInherited fuel store hk c s') (childList (objs s1 this)) s1 of
           None \<Rightarrow> None
         | Some s2 \<Rightarrow>
             Some (case hk of
                     None \<Rightarrow> s2
                   | Some h \<Rightarrow>
                       if truthyStr (entityType (objs s2 this)) then callHook (h this) s2
                       else s2))"

definition set_visible :: "nat \<Rightarrow> ref \<Rightarrow> bool option \<Rightarrow> state \<Rightarrow> state option" where
  "set_visible fuel this v s =
     (let b = (v \<noteq> Some False)
      in setInherited fuel (\<lambda>ob. ob\<lparr>visible := b\<rparr>)
           (Some (\<lambda>r. EntityVisibilityUpdated r b)) this s)"

definition set_highlighted :: "nat \<Rightarrow> ref \<Rightarrow> bool option \<Rightarrow> state \<Rightarrow> state option" where
  "set_highlighted fuel this v s =
     (let b = (v = Some True)
      in setInherited fuel (\<lambda>ob. ob\<lparr>highlighted := b\<rparr>)
           (Some (\<lambda>r. EntityHighlightedUpdated r b)) this s)"

definition set_ghosted :: "nat \<Rightarrow> ref \<Rightarrow> bool option \<Rightarrow> state \<Rightarrow> state option" where
  "set_ghosted fuel this v s =
     (let b = (v = Some True)
      in setInherited fuel (\<lambda>ob. ob\<lparr>ghosted := b\<rparr>)
           (Some (\<lambda>r. EntityGhostedUpdated r b)) this s)"

definition set_selected :: "nat \<Rightarrow> ref \<Rightarrow> bool option \<Rightarrow> state \<Rightarrow> state option" where
  "set_selected fuel this v s =
     (let b = (v = Some True)
      in setInherited fuel (\<lambda>ob. ob\<lparr>selected := b\<rparr>)
           (Some (\<lambda>r. EntitySelectedUpdated r b)) this s)"

definition set_culled :: "nat \<Rightarrow> ref \<Rightarrow> bool option \<Rightarrow> state \<Rightarrow> state option" where
  "set_culled fuel this v s =
     setInherited fuel (\<lambda>ob. ob\<lparr>culled := (v = Some True)\<rparr>) None this s"

definition set_clippable :: "nat \<Rightarrow> ref \<Rightarrow> bool option \<Rightarrow> state \<Rightarrow> state option" where
  "set_clippable fuel this v s =
     setInherited fuel (\<lambda>ob. ob\<lparr>clippable := (v \<noteq> Some False)\<rparr>) None this s"

definition set_collidable :: "nat \<Rightarrow> ref \<Rightarrow> bool option \<Rightarrow> state \<Rightarrow> state option" where
  "set_collidable fuel this v s =
     setInherited fuel (\<lambda>ob. ob\<lparr>collidable := (v \<noteq> Some False)\<rparr>) None this s"

definition set_pickable :: "nat \<Rightarrow> ref \<Rightarrow> bool option \<Rightarrow> state \<Rightarrow> state option" where
  "set_pickable fuel this v s =
     setInherited fuel (\<lambda>ob. ob\<lparr>pickable := (v \<noteq> Some False)\<rparr>) None this s"

definition set_outlined :: "nat \<Rightarrow> ref \<Rightarrow> bool option \<Rightarrow> state \<Rightarrow> state option" where
  "set_outlined fuel this v s =
     setInherited fuel (\<lambda>ob. ob\<lparr>outlined := (v = Some True)\<rparr>) None this s"

definition set_castShadow :: "nat \<Rightarrow> ref \<Rightarrow> bool option \<Rightarrow> state \<Rightarrow> state option" where
  "set_castShadow fuel this v s =
     setInherited fuel (\<lambda>ob. ob\<lparr>castShadow := (v = Some True)\<rparr>) None this s"

definition set_receiveShadow :: "nat \<Rightarrow> ref \<Rightarrow> bool option \<Rightarrow> state \<Rightarrow> state option" where
  "set_receiveShadow fuel this v s =
     setInherited fuel (\<lambda>ob. ob\<lparr>receiveShadow := (v = Some True)\<rparr>) None this s"

text \<open>
  \<^verbatim>\<open>_colorize\<close> holds red, green, blue and the opacity. The colorize setter hands its own
  array to the children, whose setters copy the same three numbers out of it; the opacity
  setter hands them its argument.
\<close>

definition storeColorize :: "vec3 option \<Rightarrow> obj \<Rightarrow> obj" where
  "storeColorize rgb ob =
     (case (case rgb of None \<Rightarrow> (1, 1, 1) | Some v \<Rightarrow> v) of (r, g, b) \<Rightarrow>
        ob\<lparr>colorize := Some (r, g, b,
              (case colorize ob of None \<Rightarrow> 1 | Some (r0, g0, b0, a0) \<Rightarrow> a0))\<rparr>)"

definition storeOpacity :: "real option \<Rightarrow> obj \<Rightarrow> obj" where
  "storeOpacity opacity ob =
     (let a = (case opacity of None \<Rightarrow> 1 | Some x \<Rightarrow> x)
      in ob\<lparr>colorize := Some (case colorize ob of None \<Rightarrow> (1, 1, 1, a)
                                | Some (r0, g0, b0, a0) \<Rightarrow> (r0, g0, b0, a))\<rparr>)"

definition set_colorize :: "nat \<Rightarrow> ref \<Rightarrow> vec3 option \<Rightarrow> state \<Rightarrow> state option" where
  "set_colorize fuel this rgb s = setInherited fuel (storeColorize rgb) None this s"

definition set_opacity :: "nat \<Rightarrow> ref \<Rightarrow> real option \<Rightarrow> state \<Rightarrow> state option" where
  "set_opacity fuel this opacity s = setInherited fuel (storeOpacity opacity) None this s"

text \<open>The two getters read \<^verbatim>\<open>_colorize\<close>, and raise a TypeError while it is undefined.\<close>

definition get_colorize :: "obj \<Rightarrow> vec3 option" where
  "get_colorize ob = (case colorize ob of None \<Rightarrow> None | Some (r, g, b, a) \<Rightarrow> Some (r, g, b))"

definition get_opacity :: "obj \<Rightarrow> real option" where
  "get_opacity ob = (case colorize ob of None \<Rightarrow> None | Some (r, g, b, a) \<Rightarrow> Some a)"

definition set_entityType :: "ref \<Rightarrow> string option \<Rightarrow> state \<Rightarrow> state" where
  "set_entityType this newEntityType s =
     (if entityType (objs s this) \<noteq> newEntityType then
        (let s1 = (case entityType (objs s this) of
                     None \<Rightarrow> s
                   | Some old \<Rightarrow> if old \<noteq> [] then callHook (EntityTypeRemoved this old) s else s);
             s2 = updObj this (\<lambda>ob. ob\<lparr>entityType := newEntityType\<rparr>) s1;
             ob = objs s2 this
         in if truthyStr newEntityType then
              (let s3 = callHook (EntityTypeAssigned this (the newEntityType)) s2;
                   s4 = (if visible ob then callHook (EntityVisibilityUpdated this True) s3 else s3);
                   s5 = (if ghosted ob then callHook (EntityGhostedUpdated this True) s4 else s4);
                   s6 = (if selected ob then callHook (EntitySelectedUpdated this True) s5 else s5)
               in (if highlighted ob then callHook (EntityHighlightedUpdated this True) s6 else s6))
            else
              callHook (EntityHighlightedUpdated this False)
                (callHook (EntitySelectedUpdated this False)
                  (callHook (EntityGhostedUpdated this False)
                    (callHook (EntityVisibilityUpdated this False) s2))))
      else s)"

text \<open>
  \<^verbatim>\<open>aabbVisible\<close> and \<^verbatim>\<open>obbVisible\<close> create a helper mesh on first use and set its
  \<^verbatim>\<open>visible\<close> property; the mesh class is not under src/, and only that flag is kept.
\<close>

definition set_aabbVisible :: "ref \<Rightarrow> bool option \<Rightarrow> state \<Rightarrow> state" where
  "set_aabbVisible this show s =
     (if show \<noteq> Some True \<and> aabbHelper (objs s this) = None then s
      else updObj this (\<lambda>ob. ob\<lparr>aabbHelper := Some (show \<noteq> Some False)\<rparr>) s)"

definition set_obbVisible :: "ref \<Rightarrow> bool option \<Rightarrow> state \<Rightarrow> state" where
  "set_obbVisible this show s =
     (if show \<noteq> Some True \<and> obbHelper (objs s this) = None then s
      else updObj this (\<lambda>ob. ob\<lparr>obbHelper := Some (show \<noteq> Some False)\<rparr>) s)"

section \<open>Child management methods\<close>

text \<open>
  \<^verbatim>\<open>Array.prototype.splice(i, n)\<close> removes \<open>n\<close> elements at index \<open>i\<close> from the array and
  returns the removed elements: the first component is the array afterwards, the second
  the value of the call.
\<close>

definition splice :: "'a list \<Rightarrow> nat \<Rightarrow> nat \<Rightarrow> 'a list \<times> 'a list" where
  "splice xs i n = (take i xs @ drop (i + n) xs, take n (drop i xs))"

text \<open>The index at which the loop of \<^verbatim>\<open>removeChild\<close> finds the id, if it does.\<close>

fun indexOfId :: "(ref \<Rightarrow> ident) \<Rightarrow> ident \<Rightarrow> ref list \<Rightarrow> nat option" where
  "indexOfId idOf i [] = None"
| "indexOfId idOf i (c # cs) =
     (if idOf c = i then Some 0 else map_option Suc (indexOfId idOf i cs))"

definition removeChild :: "nat \<Rightarrow> ref \<Rightarrow> ref \<Rightarrow> state \<Rightarrow> state option" where
  "removeChild fuel this object s =
     (let i = oid (objs s object)
      in case indexOfId (\<lambda>c. oid (objs s c)) i (childList (objs s this)) of
           None \<Rightarrow> Some s
         | Some k \<Rightarrow> do {
             let s1 = updObj object (\<lambda>ob. ob\<lparr>parent := None\<rparr>) s;
             let s2 = updObj this (\<lambda>ob. ob\<lparr>childList := snd (splice (childList ob) k 1)\<rparr>) s1;
             let s3 = updObj this (\<lambda>ob. ob\<lparr>childMap := (childMap ob)(i := None)\<rparr>) s2;
             let s4 = updObj this (\<lambda>ob. ob\<lparr>childIDs := None\<rparr>) s3;
             let sc = scene (objs s4 this);
             let s5 = s4\<lparr>rootObjects := (rootObjects s4)
                        (sc := (rootObjects s4 sc)(oid (objs s4 object) \<mapsto> object))\<rparr>;
             s6 \<leftarrow> setWorldMatrixDirty fuel object s5;
             s7 \<leftarrow> setBoundaryDirty fuel object s6;
             setBoundaryDirty fuel this s7 })"

text \<open>
  The argument of \<^verbatim>\<open>addChild\<close>: an id (a number or a string), a plain configuration
  object (\<^verbatim>\<open>xeogl._isObject\<close>), a component that is not a \<^verbatim>\<open>xeogl.Object\<close> (with its
  id), or a \<^verbatim>\<open>xeogl.Object\<close>. A plain configuration object has no \<^verbatim>\<open>scene\<close>, so the
  scene test that follows raises a TypeError on it.

  \<open>addChild_resolve\<close> is the first statement of \<^verbatim>\<open>addChild\<close>, the \<^verbatim>\<open>if\<close> over the kind
  of the argument: \<open>Inl\<close> when it returns from \<^verbatim>\<open>addChild\<close>, \<open>Inr\<close> with the object when
  control goes on to the statements after it.
\<close>

datatype arg = ArgId ident | ArgCfg | ArgComponent ident | ArgObject ref

definition addChild_resolve ::
  "nat \<Rightarrow> ref \<Rightarrow> arg \<Rightarrow> state \<Rightarrow> (state + ref \<times> state) option" where
  "addChild_resolve fuel this a s =
     (case a of
        ArgId objectId \<Rightarrow>
          (case sceneObjects s (scene (objs s this)) objectId of
             None \<Rightarrow> Some (Inl (report this (WarnObjectNotFound objectId) s))
           | Some object \<Rightarrow> Some (Inr (object, s)))
      | ArgCfg \<Rightarrow> None
      | ArgComponent i \<Rightarrow> Some (Inl (report this (ErrorNotAnObject i) s))
      | ArgObject object \<Rightarrow>
          (case parent (objs s object) of
             None \<Rightarrow> Some (Inr (object, s))
           | Some p \<Rightarrow>
               if oid (objs s p) = oid (objs s this)
               then Some (Inl (report this (WarnAlreadyChild (oid (objs s object))) s))
               else (case removeChild fuel p object s of
                       None \<Rightarrow> None
                     | Some s' \<Rightarrow> Some (Inr (object, s')))))"

text \<open>The thirteen assignments under \<^verbatim>\<open>if (inheritStates !== false)\<close>.\<close>

definition inheritStates :: "nat \<Rightarrow> ref \<Rightarrow> ref \<Rightarrow> state \<Rightarrow> state option" where
  "inheritStates fuel this object s = do {
     s \<leftarrow> set_visible fuel object (Some (visible (objs s this))) s;
     s \<leftarrow> set_culled fuel object (Some (culled (objs s this))) s;
     s \<leftarrow> set_ghosted fuel object (Some (ghosted (objs s this))) s;
     let s = updObj object (\<lambda>ob. ob\<lparr>highlited := Some (highlighted (objs s this))\<rparr>) s;
     s \<leftarrow> set_selected fuel object (Some (selected (objs s this))) s;
     s \<leftarrow> set_outlined fuel object (Some (outlined (objs s this))) s;
     s \<leftarrow> set_clippable fuel object (Some (clippable (objs s this))) s;
     s \<leftarrow> set_pickable fuel object (Some (pickable (objs s this))) s;
     s \<leftarrow> set_collidable fuel object (Some (collidable (objs s this))) s;
     s \<leftarrow> set_castShadow fuel object (Some (castShadow (objs s this))) s;
     s \<leftarrow> set_receiveShadow fuel object (Some (receiveShadow (objs s this))) s;
     rgb \<leftarrow> get_colorize (objs s this);
     s \<leftarrow> set_colorize fuel object (Some rgb) s;
     a \<leftarrow> get_opacity (objs s this);
     set_opacity fuel object (Some a) s }"

text \<open>
  \<^verbatim>\<open>addChild\<close> returns the child, or nothing when it gives up: the first component of the
  result. \<open>inherit\<close> is the argument \<^verbatim>\<open>inheritStates\<close>, \<open>None\<close> when it is left out.
\<close>

definition addChild ::
  "nat \<Rightarrow> ref \<Rightarrow> arg \<Rightarrow> bool option \<Rightarrow> state \<Rightarrow> (ref option \<times> state) option" where
  "addChild fuel this a inherit s =
     (case addChild_resolve fuel this a s of
        None \<Rightarrow> None
      | Some (Inl s') \<Rightarrow> Some (None, s')
      | Some (Inr (object, s0)) \<Rightarrow>
          (let i = oid (objs s0 object)
           in if scene (objs s0 object) \<noteq> scene (objs s0 this)
              then Some (None, report this (ErrorNotSameScene i) s0)
              else do {
                let sc = scene (objs s0 this);
                let s1 = s0\<lparr>rootObjects := (rootObjects s0)(sc := (rootObjects s0 sc)(i := None))\<rparr>;
                let s2 = updObj this (\<lambda>ob. ob\<lparr>childList := childList ob @ [object]\<rparr>) s1;
                let s3 = updObj this (\<lambda>ob. ob\<lparr>childMap := (childMap ob)(i \<mapsto> object)\<rparr>) s2;
                let s4 = updObj this (\<lambda>ob. ob\<lparr>childIDs := None\<rparr>) s3;
                let s5 = updObj object (\<lambda>ob. ob\<lparr>parent := Some this\<rparr>) s4;
                s6 \<leftarrow> (if inherit \<noteq> Some False then inheritStates fuel this object s5
                       else Some s5);
                s7 \<leftarrow> setWorldMatrixDirty fuel object s6;
                s8 \<leftarrow> setBoundaryDirty fuel object s7;
                Some (Some object, s8) }))"

section \<open>Rotation methods\<close>

definition rotate ::
  "xmath \<Rightarrow> nat \<Rightarrow> ref \<Rightarrow> vec3 \<Rightarrow> real \<Rightarrow> state \<Rightarrow> (ref \<times> state) option" where
  "rotate M fuel this axis angle s = do {
     let angleAxis = (fst axis, fst (snd axis), snd (snd axis), angle * DEGTORAD);
     let q1 = angleAxisToQuaternion angleAxis;
     let q2 = mulQuaternions (quaternion (objs s this)) q1;
     s1 \<leftarrow> set_quaternion M fuel this (Some q2) s;
     s2 \<leftarrow> setLocalMatrixDirty fuel this s1;
     s3 \<leftarrow> setBoundaryDirty fuel this s2;
     Some (this, imageDirty s3) }"

text \<open>
  \<^verbatim>\<open>rotateOnWorldAxis\<close> computes into the arrays \<^verbatim>\<open>angleAxis\<close> and \<^verbatim>\<open>q1\<close> of its own
  closure, which nothing else reads.
\<close>

definition rotateOnWorldAxis :: "ref \<Rightarrow> vec3 \<Rightarrow> real \<Rightarrow> state \<Rightarrow> ref \<times> state" where
  "rotateOnWorldAxis this axis angle s =
     (let angleAxis = (fst axis, fst (snd axis), snd (snd axis), angle * DEGTORAD);
          q1 = angleAxisToQuaternion angleAxis;
          q1' = mulQuaternions q1 (quaternion (objs s this))
      in (this, s))"

section \<open>Construction\<close>

text \<open>
  The configuration given to the constructor; a field that is left out is \<open>None\<close> (an
  empty list for \<^verbatim>\<open>children\<close>). \<open>init\<close> is \<^verbatim>\<open>_init\<close>, run on the component that the base
  constructor has allocated at \<open>this\<close>.
\<close>

record cfg =
  cfg_guid :: "string option"
  cfg_entityType :: "string option"
  cfg_matrix :: "mat4 option"
  cfg_scale :: "vec3 option"
  cfg_position :: "vec3 option"
  cfg_quaternion :: "vec4 option"
  cfg_rotation :: "vec3 option"
  cfg_visible :: "bool option"
  cfg_culled :: "bool option"
  cfg_pickable :: "bool option"
  cfg_clippable :: "bool option"
  cfg_collidable :: "bool option"
  cfg_castShadow :: "bool option"
  cfg_receiveShadow :: "bool option"
  cfg_outlined :: "bool option"
  cfg_layer :: "int option"
  cfg_stationary :: "bool option"
  cfg_billboard :: "string option"
  cfg_solid :: "bool option"
  cfg_ghosted :: "bool option"
  cfg_highlighted :: "bool option"
  cfg_selected :: "bool option"
  cfg_colorize :: "vec3 option"
  cfg_opacity :: "real option"
  cfg_aabbVisible :: "bool option"
  cfg_obbVisible :: "bool option"
  cfg_children :: "arg list"
  cfg_inheritStates :: "bool option"
  cfg_parent :: "ref option"

definition initFields :: "cfg \<Rightarrow> obj \<Rightarrow> obj" where
  "initFields c ob = ob\<lparr>parent := None, childList := [], childMap := Map.empty,
     childIDs := None, aabb := None, aabbDirty := True, obb := None, obbDirty := True,
     scale := vec3zero, quaternion := identityQuaternion, rotation := vec3zero,
     position := vec3zero, localMatrix := identityMat4, worldMatrix := identityMat4,
     worldNormalMatrix := identityMat4, localMatrixDirty := True, worldMatrixDirty := True,
     worldNormalMatrixDirty := True, guid := cfg_guid c\<rparr>"

definition initTransform :: "xmath \<Rightarrow> nat \<Rightarrow> ref \<Rightarrow> cfg \<Rightarrow> state \<Rightarrow> state option" where
  "initTransform M fuel this c s =
     (case cfg_matrix c of
        Some m \<Rightarrow> set_matrix M fuel this (Some m) s
      | None \<Rightarrow> do {
          s \<leftarrow> set_scale fuel this (cfg_scale c) s;
          s \<leftarrow> set_position fuel this (cfg_position c) s;
          (case cfg_quaternion c of
             Some q \<Rightarrow> Some s
           | None \<Rightarrow> set_rotation fuel this (cfg_rotation c) s) })"

definition initProperties :: "nat \<Rightarrow> ref \<Rightarrow> cfg \<Rightarrow> state \<Rightarrow> state option" where
  "initProperties fuel this c s = do {
     s \<leftarrow> set_visible fuel this (cfg_visible c) s;
     s \<leftarrow> set_culled fuel this (cfg_culled c) s;
     s \<leftarrow> set_pickable fuel this (cfg_pickable c) s;
     s \<leftarrow> set_clippable fuel this (cfg_clippable c) s;
     s \<leftarrow> set_collidable fuel this (cfg_collidable c) s;
     s \<leftarrow> set_castShadow fuel this (cfg_castShadow c) s;
     s \<leftarrow> set_receiveShadow fuel this (cfg_receiveShadow c) s;
     s \<leftarrow> set_outlined fuel this (cfg_outlined c) s;
     let s = updObj this (\<lambda>ob. ob\<lparr>layer := cfg_layer c, stationary := cfg_stationary c,
                billboard := cfg_billboard c, solid := cfg_solid c\<rparr>) s;
     s \<leftarrow> set_ghosted fuel this (cfg_ghosted c) s;
     s \<leftarrow> set_highlighted fuel this (cfg_highlighted c) s;
     s \<leftarrow> set_selected fuel this (cfg_selected c) s;
     s \<leftarrow> set_colorize fuel this (cfg_colorize c) s;
     s \<leftarrow> set_opacity fuel this (cfg_opacity c) s;
     Some (set_obbVisible this (cfg_obbVisible c) (set_aabbVisible this (cfg_aabbVisible c) s)) }"

definition init :: "xmath \<Rightarrow> nat \<Rightarrow> ref \<Rightarrow> cfg \<Rightarrow> state \<Rightarrow> state option" where
  "init M fuel this c s = do {
     let s = updObj this (initFields c) s;
     let s = set_entityType this (cfg_entityType c) s;
     s \<leftarrow> initTransform M fuel this c s;
     s \<leftarrow> initProperties fuel this c s;
     s \<leftarrow> forEach (\<lambda>ch s'. map_option snd (addChild fuel this ch (cfg_inheritStates c) s'))
            (cfg_children c) s;
     (case cfg_parent c of
        None \<Rightarrow> Some s
      | Some p \<Rightarrow> map_option snd (addChild fuel p (ArgObject this) None s)) }"

section \<open>Notions the statements use\<close>

text \<open>The subtree of a node: the node, and whatever is reached through \<^verbatim>\<open>_childList\<close>.\<close>

inductive subtree :: "state \<Rightarrow> ref \<Rightarrow> ref \<Rightarrow> bool" for s :: state where
  self: "subtree s r r"
| step: "c \<in> set (childList (objs s r)) \<Longrightarrow> subtree s c n \<Longrightarrow> subtree s r n"

code_pred subtree .

text \<open>
  A graph of children without cycles has a rank that falls from each node to its children;
  the recursion over a subtree then ends within the rank of its root.
\<close>

definition descending :: "state \<Rightarrow> (ref \<Rightarrow> nat) \<Rightarrow> bool" where
  "descending s d = (\<forall>r. \<forall>c \<in> set (childList (objs s r)). d c < d r)"

text \<open>
  A list \<open>[n, parent of n, ..., root]\<close> that follows \<^verbatim>\<open>_parent\<close> up to a node without
  parent, and the same list read downwards: each node is in the \<^verbatim>\<open>_childList\<close> of the next.
\<close>

fun parentChain :: "state \<Rightarrow> ref list \<Rightarrow> bool" where
  "parentChain s [] = False"
| "parentChain s [r] = (parent (objs s r) = None)"
| "parentChain s (n # p # rest) = (parent (objs s n) = Some p \<and> parentChain s (p # rest))"

fun childPath :: "state \<Rightarrow> ref list \<Rightarrow> bool" where
  "childPath s (n # p # rest) = (n \<in> set (childList (objs s p)) \<and> childPath s (p # rest))"
| "childPath s ns = True"

text \<open>
  The local matrix that \<^verbatim>\<open>_buildWorldMatrix\<close> uses for a node: the stored one, or the one
  composed from position, quaternion and scale when the stored one is dirty. The product
  of the local matrices along a parent chain, the root's leftmost.
\<close>

definition effLocal :: "obj \<Rightarrow> mat4" where
  "effLocal ob = (if localMatrixDirty ob then composeMat4 (position ob) (quaternion ob) (scale ob)
                  else localMatrix ob)"

fun worldProduct :: "state \<Rightarrow> ref list \<Rightarrow> mat4" where
  "worldProduct s [] = identityMat4"
| "worldProduct s [r] = effLocal (objs s r)"
| "worldProduct s (n # p # rest) = mulMat4 (worldProduct s (p # rest)) (effLocal (objs s n))"

text \<open>The state in which the nodes of a set have been marked by \<^verbatim>\<open>_setWorldMatrixDirty\<close>.\<close>

definition markAll :: "ref set \<Rightarrow> state \<Rightarrow> state" where
  "markAll T s = s\<lparr>objs := (\<lambda>m. if m \<in> T then markWorldDirty (objs s m) else objs s m)\<rparr>"

text \<open>
  Two states that differ at most in boundary events fired and in \<^verbatim>\<open>_obbDirty\<close> flags
  raised: all that \<^verbatim>\<open>_setBoundaryDirty\<close> can change.
\<close>

definition boundaryOnly :: "state \<Rightarrow> state \<Rightarrow> bool" where
  "boundaryOnly s s' =
     ((\<forall>m. objs s' m = (objs s m)\<lparr>obbDirty := obbDirty (objs s' m)\<rparr>
           \<and> (obbDirty (objs s m) \<longrightarrow> obbDirty (objs s' m)))
      \<and> sceneObjects s' = sceneObjects s \<and> rootObjects s' = rootObjects s
      \<and> reports s' = reports s \<and> sceneHooks s' = sceneHooks s
      \<and> imageDirtyCalls s' = imageDirtyCalls s)"

text \<open>The rotation of every object of a state: its quaternion and its Euler angles.\<close>

definition rotOf :: "state \<Rightarrow> ref \<Rightarrow> vec4 \<times> vec3" where
  "rotOf s m = (quaternion (objs s m), rotation (objs s m))"

text \<open>A node without children and without parent.\<close>

definition soleNode :: "state \<Rightarrow> ref \<Rightarrow> bool" where
  "soleNode s r = (childList (objs s r) = [] \<and> parent (objs s r) = None)"

text \<open>
  Two states in which every object has the same parent and the same local matrix in effect,
  and in which no clean local matrix has become dirty.
\<close>

definition localKept :: "state \<Rightarrow> state \<Rightarrow> bool" where
  "localKept s s' = (\<forall>m. parent (objs s' m) = parent (objs s m)
      \<and> effLocal (objs s' m) = effLocal (objs s m)
      \<and> (localMatrixDirty (objs s' m) \<longrightarrow> localMatrixDirty (objs s m)))"

text \<open>
  Reading the world matrix of the first node of a chain in the state \<open>s1\<close> returns the
  product of the local matrices along the chain, in which the root's local matrix is \<open>L\<close>
  and every other local matrix is the one in effect in \<open>s\<close>.
\<close>

definition readsRebuilt :: "state \<Rightarrow> ref list \<Rightarrow> state \<Rightarrow> mat4 \<Rightarrow> bool" where
  "readsRebuilt s ns s1 L =
     ((\<exists>s2. get_worldMatrix (length ns) (hd ns) s1 = Some (worldProduct s1 ns, s2))
      \<and> effLocal (objs s1 (last ns)) = L
      \<and> (\<forall>n. n \<noteq> last ns \<longrightarrow> effLocal (objs s1 n) = effLocal (objs s n)))"

text \<open>
  Two states that differ at most in the five dirty flags of their objects, which is all
  that the invalidation routines change in the store.
\<close>

definition clearFlags :: "obj \<Rightarrow> obj" where
  "clearFlags ob = ob\<lparr>localMatrixDirty := False, worldMatrixDirty := False,
     worldNormalMatrixDirty := False, aabbDirty := False, obbDirty := False\<rparr>"

definition flagsOnly :: "state \<Rightarrow> state \<Rightarrow> bool" where
  "flagsOnly s s' = (\<forall>m. clearFlags (objs s' m) = clearFlags (objs s m))"

section \<open>Sample scenes\<close>

text \<open>
  An object as the constructor leaves it for an empty configuration, the empty
  configuration, and a state in which every reference holds such an object.
\<close>

definition newObject :: "ident \<Rightarrow> ident \<Rightarrow> obj" where
  "newObject i sc = \<lparr>oid = i, scene = sc, guid = None, entityType = None, parent = None,
     childList = [], childMap = Map.empty, childIDs = None, aabb = None, aabbDirty = True,
     obb = None, obbDirty = True, scale = (1, 1, 1), quaternion = (0, 0, 0, 1),
     rotation = (0, 0, 0), position = (0, 0, 0), localMatrix = identityMat4,
     worldMatrix = identityMat4, worldNormalMatrix = identityMat4, localMatrixDirty = True,
     worldMatrixDirty = True, worldNormalMatrixDirty = True, visible = True, culled = False,
     pickable = True, clippable = True, collidable = True, castShadow = False,
     receiveShadow = False, outlined = False, ghosted = False, highlighted = False,
     selected = False, colorize = Some (1, 1, 1, 1), highlited = None, layer = None,
     stationary = None, billboard = None, solid = None, aabbHelper = None, obbHelper = None\<rparr>"

definition emptyCfg :: cfg where
  "emptyCfg = \<lparr>cfg_guid = None, cfg_entityType = None, cfg_matrix = None, cfg_scale = None,
     cfg_position = None, cfg_quaternion = None, cfg_rotation = None, cfg_visible = None,
     cfg_culled = None, cfg_pickable = None, cfg_clippable = None, cfg_collidable = None,
     cfg_castShadow = None, cfg_receiveShadow = None, cfg_outlined = None, cfg_layer = None,
     cfg_stationary = None, cfg_billboard = None, cfg_solid = None, cfg_ghosted = None,
     cfg_highlighted = None, cfg_selected = None, cfg_colorize = None, cfg_opacity = None,
     cfg_aabbVisible = None, cfg_obbVisible = None, cfg_children = [], cfg_inheritStates = None,
     cfg_parent = None\<rparr>"

definition emptyState :: state where
  "emptyState = \<lparr>objs = (\<lambda>r. newObject [] []), sceneObjects = (\<lambda>sc. Map.empty),
     rootObjects = (\<lambda>sc. Map.empty), reports = [], sceneHooks = [], fired = [],
     imageDirtyCalls = 0\<rparr>"

text \<open>
  A parent \<open>p\<close> (reference 0) with one child \<open>c\<close> (reference 1), as \<^verbatim>\<open>p.addChild(c)\<close>
  builds it. The boundary of \<open>p\<close> has been read since, so \<open>p\<close> is clean; \<open>c\<close> is dirty,
  as \<^verbatim>\<open>_setWorldMatrixDirty\<close> leaves it when its transform is set.
\<close>

definition family :: state where
  "family = emptyState\<lparr>objs := (objs emptyState)
     (0 := (newObject ''p'' ''scene'')\<lparr>childList := [1], childMap := [''c'' \<mapsto> 1],
              aabbDirty := False, obbDirty := False\<rparr>,
      1 := (newObject ''c'' ''scene'')\<lparr>parent := Some 0\<rparr>),
     sceneObjects := (\<lambda>sc. Map.empty)(''scene'' := [''p'' \<mapsto> 0, ''c'' \<mapsto> 1]),
     rootObjects := (\<lambda>sc. Map.empty)(''scene'' := [''p'' \<mapsto> 0])\<rparr>"

text \<open>A parent \<open>p\<close> (reference 0) with the children \<open>a\<close> and \<open>b\<close> (references 1 and 2).\<close>

definition siblings :: state where
  "siblings = emptyState\<lparr>objs := (objs emptyState)
     (0 := (newObject ''p'' ''scene'')\<lparr>childList := [1, 2],
              childMap := [''a'' \<mapsto> 1, ''b'' \<mapsto> 2]\<rparr>,
      1 := (newObject ''a'' ''scene'')\<lparr>parent := Some 0\<rparr>,
      2 := (newObject ''b'' ''scene'')\<lparr>parent := Some 0\<rparr>),
     sceneObjects := (\<lambda>sc. Map.empty)(''scene'' := [''p'' \<mapsto> 0, ''a'' \<mapsto> 1, ''b'' \<mapsto> 2]),
     rootObjects := (\<lambda>sc. Map.empty)(''scene'' := [''p'' \<mapsto> 0])\<rparr>"

text \<open>
  Two scenes: \<open>p\<close> (reference 0) is a root of scene A; in scene B, \<open>q\<close> (reference 1) has
  the child \<open>o\<close> (reference 2).
\<close>

definition twoScenes :: state where
  "twoScenes = emptyState\<lparr>objs := (objs emptyState)
     (0 := newObject ''p'' ''A'',
      1 := (newObject ''q'' ''B'')\<lparr>childList := [2], childMap := [''o'' \<mapsto> 2]\<rparr>,
      2 := (newObject ''o'' ''B'')\<lparr>parent := Some 1\<rparr>),
     sceneObjects := (\<lambda>sc. Map.empty)(''A'' := [''p'' \<mapsto> 0], ''B'' := [''q'' \<mapsto> 1, ''o'' \<mapsto> 2]),
     rootObjects := (\<lambda>sc. Map.empty)(''A'' := [''p'' \<mapsto> 0], ''B'' := [''q'' \<mapsto> 1])\<rparr>"

text \<open>Two roots of one scene; \<open>p\<close> (reference 0) is highlighted, \<open>o\<close> (reference 1) is not.\<close>

definition highlightedRoot :: state where
  "highlightedRoot = emptyState\<lparr>objs := (objs emptyState)
     (0 := (newObject ''p'' ''scene'')\<lparr>highlighted := True\<rparr>,
      1 := newObject ''o'' ''scene''),
     sceneObjects := (\<lambda>sc. Map.empty)(''scene'' := [''p'' \<mapsto> 0, ''o'' \<mapsto> 1]),
     rootObjects := (\<lambda>sc. Map.empty)(''scene'' := [''p'' \<mapsto> 0, ''o'' \<mapsto> 1])\<rparr>"

text \<open>
  The chain of the spec's property P1: a root (reference 0) at position (1,0,0) with one
  child (reference 1) at local position (0,2,0), both with identity rotation and unit scale.
\<close>

definition chain2 :: state where
  "chain2 = emptyState\<lparr>objs := (objs emptyState)
     (0 := (newObject ''root'' ''scene'')\<lparr>position := (1, 0, 0), childList := [1],
              childMap := [''child'' \<mapsto> 1]\<rparr>,
      1 := (newObject ''child'' ''scene'')\<lparr>position := (0, 2, 0), parent := Some 0\<rparr>),
     sceneObjects := (\<lambda>sc. Map.empty)(''scene'' := [''root'' \<mapsto> 0, ''child'' \<mapsto> 1]),
     rootObjects := (\<lambda>sc. Map.empty)(''scene'' := [''root'' \<mapsto> 0])\<rparr>"

text \<open>
  A root (reference 0), its child (reference 1) and its grandchild (reference 2), whose
  world matrices have been read: nothing is dirty.
\<close>

definition cleanObject :: "ident \<Rightarrow> obj" where
  "cleanObject i = (newObject i ''scene'')\<lparr>localMatrixDirty := False,
     worldMatrixDirty := False, worldNormalMatrixDirty := False, aabbDirty := False,
     obbDirty := False\<rparr>"

definition chain3 :: state where
  "chain3 = emptyState\<lparr>objs := (objs emptyState)
     (0 := (cleanObject ''root'')\<lparr>childList := [1], childMap := [''child'' \<mapsto> 1]\<rparr>,
      1 := (cleanObject ''child'')\<lparr>parent := Some 0, childList := [2],
              childMap := [''grandchild'' \<mapsto> 2]\<rparr>,
      2 := (cleanObject ''grandchild'')\<lparr>parent := Some 1\<rparr>),
     sceneObjects := (\<lambda>sc. Map.empty)
        (''scene'' := [''root'' \<mapsto> 0, ''child'' \<mapsto> 1, ''grandchild'' \<mapsto> 2]),
     rootObjects := (\<lambda>sc. Map.empty)(''scene'' := [''root'' \<mapsto> 0])\<rparr>"

text \<open>
  An instance of the two conversions that are parameters, for the statements about one
  concrete call; no statement depends on the choice.
\<close>

definition someMath :: xmath where
  "someMath = \<lparr>quaternionToEuler = (\<lambda>q. (0, 0, 0)),
                decomposeMat4 = (\<lambda>m. ((0, 0, 0), (0, 0, 0, 1), (1, 1, 1)))\<rparr>"

text \<open>
  A single root (reference 0) turned by 90 degrees about the x axis, as the assignment
  \<^verbatim>\<open>rotation = [90, 0, 0]\<close> leaves it: the sine and the cosine of 45 degrees are
  \<open>sqrt 2 / 2\<close>.
\<close>

definition tilted :: state where
  "tilted = emptyState\<lparr>objs := (objs emptyState)
     (0 := (newObject ''o'' ''scene'')\<lparr>rotation := (90, 0, 0),
              quaternion := (sqrt 2 / 2, 0, 0, sqrt 2 / 2)\<rparr>),
     sceneObjects := (\<lambda>sc. Map.empty)(''scene'' := [''o'' \<mapsto> 0]),
     rootObjects := (\<lambda>sc. Map.empty)(''scene'' := [''o'' \<mapsto> 0])\<rparr>"

section \<open>Lemmas\<close>

lemmas setter_defs = set_visible_def set_culled_def set_ghosted_def set_selected_def
  set_highlighted_def set_outlined_def set_clippable_def set_pickable_def set_collidable_def
  set_castShadow_def set_receiveShadow_def set_colorize_def set_opacity_def get_colorize_def
  get_opacity_def storeColorize_def storeOpacity_def truthyStr_def callHook_def

lemmas scene_defs = emptyState_def newObject_def updObj_def fire_def report_def
  markBoundaryDirty_def markWorldDirty_def setBoundaryDirty_def Let_def

lemma forEach_inv:
  assumes "forEach f xs s = Some s'" and "P s"
    and "\<And>x a b. x \<in> set xs \<Longrightarrow> P a \<Longrightarrow> f x a = Some b \<Longrightarrow> P b"
  shows "P s'"
  using assms
proof (induction xs arbitrary: s)
  case Nil
  then show ?case by simp
next
  case (Cons x xs)
  from Cons.prems(1) obtain t where t: "f x s = Some t" and rest: "forEach f xs t = Some s'"
    by (auto split: option.splits)
  have "P t" using Cons.prems(3)[OF _ Cons.prems(2) t] by simp
  then show ?case by (rule Cons.IH[OF rest]) (use Cons.prems(3) in auto)
qed

lemma forEach_total:
  assumes "Q s"
    and "\<And>x a. x \<in> set xs \<Longrightarrow> Q a \<Longrightarrow> \<exists>b. f x a = Some b \<and> Q b"
  shows "\<exists>s'. forEach f xs s = Some s' \<and> Q s'"
  using assms
proof (induction xs arbitrary: s)
  case Nil
  then show ?case by simp
next
  case (Cons x xs)
  from Cons.prems obtain t where t: "f x s = Some t" "Q t" by fastforce
  from Cons.IH[OF t(2)] Cons.prems(2) obtain s' where "forEach f xs t = Some s'" "Q s'"
    by auto
  then show ?case using t by auto
qed

subsection \<open>What marking the world matrix dirty changes\<close>

lemma markWorldDirty_idem [simp]: "markWorldDirty (markWorldDirty ob) = markWorldDirty ob"
  by (simp add: markWorldDirty_def)

lemma childList_markWorldDirty [simp]: "childList (markWorldDirty ob) = childList ob"
  by (simp add: markWorldDirty_def)

lemma markAll_markAll: "markAll A (markAll B s) = markAll (A \<union> B) s"
  by (auto simp: markAll_def fun_eq_iff)

lemma updObj_markWorldDirty: "updObj r markWorldDirty s = markAll {r} s"
  by (auto simp: markAll_def updObj_def fun_eq_iff)

lemma subtree_cong:
  assumes "\<And>m. childList (objs t m) = childList (objs s m)"
  shows "subtree t r n = subtree s r n"
proof
  assume "subtree t r n"
  then show "subtree s r n"
    by (induction rule: subtree.induct) (auto intro: subtree.intros simp: assms)
next
  assume "subtree s r n"
  then show "subtree t r n"
    by (induction rule: subtree.induct) (auto intro: subtree.intros simp: assms[symmetric])
qed

lemma childList_markAll [simp]: "childList (objs (markAll T s) m) = childList (objs s m)"
  by (simp add: markAll_def)

lemma subtree_markAll [simp]: "subtree (markAll T s) r n = subtree s r n"
  by (rule subtree_cong) simp

lemma subtree_unfold:
  "{n. subtree s r n} = {r} \<union> (\<Union>c \<in> set (childList (objs s r)). {n. subtree s c n})"
  by (auto intro: subtree.intros elim: subtree.cases)

lemma setWorldMatrixDirty_exact:
  "setWorldMatrixDirty fuel r s = Some s' \<Longrightarrow> s' = markAll {n. subtree s r n} s"
proof (induction fuel arbitrary: r s s')
  case 0
  then show ?case by simp
next
  case (Suc fuel)
  let ?cs = "childList (objs s r)"
  have run: "forEach (\<lambda>c s'. setWorldMatrixDirty fuel c s') ?cs (markAll {r} s) = Some s'"
    using Suc.prems by (simp add: updObj_markWorldDirty Let_def)
  have loop: "forEach (\<lambda>c s'. setWorldMatrixDirty fuel c s') cs (markAll T s) = Some t
      \<Longrightarrow> t = markAll (T \<union> (\<Union>c \<in> set cs. {n. subtree s c n})) s" for cs T t
  proof (induction cs arbitrary: T)
    case Nil
    then show ?case by simp
  next
    case (Cons c cs)
    from Cons.prems obtain u where u: "setWorldMatrixDirty fuel c (markAll T s) = Some u"
      and rest: "forEach (\<lambda>c s'. setWorldMatrixDirty fuel c s') cs u = Some t"
      by (auto split: option.splits)
    have "u = markAll ({n. subtree s c n} \<union> T) s"
      using Suc.IH[OF u] by (simp add: markAll_markAll)
    with rest Cons.IH[of "{n. subtree s c n} \<union> T"] show ?case
      by (simp add: Un_assoc Un_commute Un_left_commute)
  qed
  show ?case using loop[OF run] subtree_unfold[of s r] by simp
qed

lemma setWorldMatrixDirty_total:
  "descending s d \<Longrightarrow> d r < fuel \<Longrightarrow> \<exists>s'. setWorldMatrixDirty fuel r s = Some s'"
proof (induction fuel arbitrary: r s)
  case 0
  then show ?case by simp
next
  case (Suc fuel)
  let ?Q = "\<lambda>t::state. \<forall>m. childList (objs t m) = childList (objs s m)"
  have desc: "descending t d" if "?Q t" for t
    using that Suc.prems(1) by (simp add: descending_def)
  have "\<exists>s'. forEach (\<lambda>c s'. setWorldMatrixDirty fuel c s') (childList (objs s r)) (markAll {r} s) = Some s' \<and> ?Q s'"
  proof (rule forEach_total)
    show "?Q (markAll {r} s)" by simp
  next
    fix c a assume c: "c \<in> set (childList (objs s r))" and a: "?Q a"
    have "d c < d r" using Suc.prems(1) c unfolding descending_def by blast
    then have "d c < fuel" using Suc.prems(2) by linarith
    moreover have "descending a d" using desc a by blast
    ultimately obtain b where b: "setWorldMatrixDirty fuel c a = Some b"
      using Suc.IH by blast
    have "?Q b" using setWorldMatrixDirty_exact[OF b] a by simp
    with b show "\<exists>b. setWorldMatrixDirty fuel c a = Some b \<and> ?Q b" by blast
  qed
  then show ?case by (auto simp: updObj_markWorldDirty Let_def)
qed

subsection \<open>What boundary invalidation changes\<close>

lemma boundaryOnly_refl [simp]: "boundaryOnly s s"
  by (simp add: boundaryOnly_def)

lemma boundaryOnly_trans: "boundaryOnly s t \<Longrightarrow> boundaryOnly t u \<Longrightarrow> boundaryOnly s u"
  unfolding boundaryOnly_def
proof (intro conjI allI, goal_cases)
  case (1 m)
  then have a: "objs t m = (objs s m)\<lparr>obbDirty := obbDirty (objs t m)\<rparr>"
    and b: "objs u m = (objs t m)\<lparr>obbDirty := obbDirty (objs u m)\<rparr>" by blast+
  show ?case by (subst b, subst a) simp
qed auto

lemma boundaryOnly_field:
  assumes "boundaryOnly s t" and "\<And>ob x. f (ob\<lparr>obbDirty := x\<rparr>) = f ob"
  shows "f (objs t m) = f (objs s m)"
proof -
  have "objs t m = (objs s m)\<lparr>obbDirty := obbDirty (objs t m)\<rparr>"
    using assms(1) by (simp add: boundaryOnly_def)
  then show ?thesis using assms(2) by metis
qed

lemma boundaryOnly_markBoundaryDirty:
  "boundaryOnly (fst sn) (fst (markBoundaryDirty object sn))"
proof (cases "aabbDirty (objs (fst sn) object)")
  case False
  then show ?thesis by (simp add: markBoundaryDirty_def)
next
  case True
  then have "(objs (fst sn) object)\<lparr>aabbDirty := True, obbDirty := True\<rparr>
      = (objs (fst sn) object)\<lparr>obbDirty := True\<rparr>"
    by (cases "objs (fst sn) object") simp
  then show ?thesis using True
    by (simp add: markBoundaryDirty_def boundaryOnly_def updObj_def)
qed

lemma setSubtreeBoundariesDirty_boundaryOnly:
  "setSubtreeBoundariesDirty fuel r sn = Some sn' \<Longrightarrow> boundaryOnly (fst sn) (fst sn')"
proof (induction fuel arbitrary: r sn sn')
  case 0
  then show ?case by simp
next
  case (Suc fuel)
  from Suc.prems obtain sn1 where
    loop: "forEach (\<lambda>c sn'. setSubtreeBoundariesDirty fuel c sn')
             (childList (objs (fst sn) r)) sn = Some sn1"
    and fin: "sn' = markBoundaryDirty r sn1"
    by (auto split: option.splits)
  have "boundaryOnly (fst sn) (fst sn1)"
    by (rule forEach_inv[OF loop, where P = "\<lambda>t. boundaryOnly (fst sn) (fst t)"])
       (auto intro: boundaryOnly_trans dest: Suc.IH)
  then show ?case unfolding fin
    by (rule boundaryOnly_trans) (rule boundaryOnly_markBoundaryDirty)
qed

lemma setParentBoundariesDirty_boundaryOnly:
  "setParentBoundariesDirty fuel ob sn = Some sn' \<Longrightarrow> boundaryOnly (fst sn) (fst sn')"
proof (induction fuel ob sn arbitrary: sn' rule: setParentBoundariesDirty.induct)
  case (1 fuel sn)
  then show ?case by simp
next
  case (2 object sn)
  then show ?case by simp
next
  case (3 fuel object sn)
  have "boundaryOnly (fst (markBoundaryDirty object sn)) (fst sn')"
    using 3 by (simp add: Let_def)
  then show ?case
    using boundaryOnly_markBoundaryDirty boundaryOnly_trans by blast
qed

lemma boundaryOnly_fire:
  "boundaryOnly s t \<Longrightarrow> boundaryOnly s (fold (\<lambda>n s'. fire n ev s') ns t)"
proof (induction ns arbitrary: t)
  case Nil
  then show ?case by simp
next
  case (Cons n ns)
  have "boundaryOnly t (fire n ev t)" by (simp add: boundaryOnly_def fire_def)
  then have "boundaryOnly s (fire n ev t)" using Cons.prems boundaryOnly_trans by blast
  then show ?case using Cons.IH by simp
qed

lemma setBoundaryDirty_boundaryOnly:
  "setBoundaryDirty fuel r s = Some s' \<Longrightarrow> boundaryOnly s s'"
proof -
  assume run: "setBoundaryDirty fuel r s = Some s'"
  then obtain sn1 sn2 where
    a: "setSubtreeBoundariesDirty fuel r (s, []) = Some sn1"
    and b: "setParentBoundariesDirty fuel (Some r) sn1 = Some sn2"
    and c: "s' = fold (\<lambda>n s'. fire n ''boundary'' s') (snd sn2) (fst sn2)"
    by (auto simp: setBoundaryDirty_def split: option.splits)
  have "boundaryOnly s (fst sn2)"
    using setSubtreeBoundariesDirty_boundaryOnly[OF a]
      setParentBoundariesDirty_boundaryOnly[OF b] boundaryOnly_trans by fastforce
  then show ?thesis unfolding c by (rule boundaryOnly_fire)
qed

lemma descending_cong:
  "(\<And>m. childList (objs t m) = childList (objs s m)) \<Longrightarrow> descending t d = descending s d"
  by (simp add: descending_def)

lemma parentChain_cong:
  "(\<And>m. parent (objs t m) = parent (objs s m)) \<Longrightarrow> parentChain t ns = parentChain s ns"
  by (induction s ns rule: parentChain.induct) simp_all

lemma boundaryOnly_descending: "boundaryOnly s t \<Longrightarrow> descending t d = descending s d"
  by (rule descending_cong) (erule boundaryOnly_field, simp)

lemma boundaryOnly_parentChain: "boundaryOnly s t \<Longrightarrow> parentChain t ns = parentChain s ns"
  by (rule parentChain_cong) (erule boundaryOnly_field, simp)

lemma setSubtreeBoundariesDirty_total:
  "descending (fst sn) d \<Longrightarrow> d r < fuel \<Longrightarrow> \<exists>sn'. setSubtreeBoundariesDirty fuel r sn = Some sn'"
proof (induction fuel arbitrary: r sn)
  case 0
  then show ?case by simp
next
  case (Suc fuel)
  let ?Q = "\<lambda>t::state \<times> ref list. boundaryOnly (fst sn) (fst t)"
  have "\<exists>sn1. forEach (\<lambda>c sn'. setSubtreeBoundariesDirty fuel c sn')
             (childList (objs (fst sn) r)) sn = Some sn1 \<and> ?Q sn1"
  proof (rule forEach_total)
    show "?Q sn" by simp
  next
    fix c a assume c: "c \<in> set (childList (objs (fst sn) r))" and a: "?Q a"
    have "d c < d r" using Suc.prems(1) c unfolding descending_def by blast
    then have "d c < fuel" using Suc.prems(2) by linarith
    moreover have "descending (fst a) d"
      using a Suc.prems(1) by (simp add: boundaryOnly_descending)
    ultimately obtain b where b: "setSubtreeBoundariesDirty fuel c a = Some b"
      using Suc.IH by blast
    have "?Q b"
      using a setSubtreeBoundariesDirty_boundaryOnly[OF b] boundaryOnly_trans by blast
    with b show "\<exists>b. setSubtreeBoundariesDirty fuel c a = Some b \<and> ?Q b" by blast
  qed
  then show ?case by auto
qed

lemma setParentBoundariesDirty_total:
  "parentChain (fst sn) ns \<Longrightarrow> length ns \<le> fuel
    \<Longrightarrow> \<exists>sn'. setParentBoundariesDirty fuel (Some (hd ns)) sn = Some sn'"
proof (induction ns arbitrary: fuel sn)
  case Nil
  then show ?case by simp
next
  case (Cons n ns)
  then obtain k where k: "fuel = Suc k" by (cases fuel) auto
  let ?sn1 = "markBoundaryDirty n sn"
  have bo: "boundaryOnly (fst sn) (fst ?sn1)" by (rule boundaryOnly_markBoundaryDirty)
  have par: "parent (objs (fst ?sn1) n) = parent (objs (fst sn) n)"
    by (rule boundaryOnly_field[OF bo]) simp
  show ?case
  proof (cases ns)
    case Nil
    then show ?thesis using Cons.prems k par by (simp add: Let_def)
  next
    case (Cons p rest)
    have "parentChain (fst ?sn1) ns"
      using Cons.prems(1) Cons by (simp add: boundaryOnly_parentChain[OF bo])
    moreover have "length ns \<le> k" using Cons.prems(2) k by simp
    ultimately obtain sn' where "setParentBoundariesDirty k (Some (hd ns)) ?sn1 = Some sn'"
      using Cons.IH by blast
    then show ?thesis using Cons.prems(1) Cons k par by (simp add: Let_def)
  qed
qed

lemma setBoundaryDirty_total:
  assumes "descending s d" and "d r < fuel"
    and "parentChain s ns" and "hd ns = r" and "length ns \<le> fuel"
  shows "\<exists>s'. setBoundaryDirty fuel r s = Some s'"
proof -
  obtain sn1 where a: "setSubtreeBoundariesDirty fuel r (s, []) = Some sn1"
    using setSubtreeBoundariesDirty_total[of "(s, [])" d r fuel] assms(1,2) by auto
  have "parentChain (fst sn1) ns"
    using setSubtreeBoundariesDirty_boundaryOnly[OF a] assms(3)
    by (simp add: boundaryOnly_parentChain)
  then obtain sn2 where "setParentBoundariesDirty fuel (Some r) sn1 = Some sn2"
    using setParentBoundariesDirty_total[of sn1 ns fuel] assms(4,5) by auto
  then show ?thesis using a by (simp add: setBoundaryDirty_def)
qed

subsection \<open>Rebuilding world matrices\<close>

lemma localKept_refl [simp]: "localKept s s"
  by (simp add: localKept_def)

lemma localKept_trans: "localKept s t \<Longrightarrow> localKept t u \<Longrightarrow> localKept s u"
  by (simp add: localKept_def)

lemma localKept_buildLocalMatrix:
  "localKept s (if localMatrixDirty (objs s n) then buildLocalMatrix n s else s)"
  by (simp add: localKept_def buildLocalMatrix_def updObj_def effLocal_def)

lemma localKept_setWorld:
  "localKept s (updObj n (\<lambda>ob. ob\<lparr>worldMatrix := f ob, worldMatrixDirty := False\<rparr>) s)"
  by (simp add: localKept_def updObj_def effLocal_def)

lemma buildWorldMatrix_localKept:
  "buildWorldMatrix fuel r s = Some s' \<Longrightarrow> localKept s s'"
proof (induction fuel arbitrary: r s s')
  case 0
  then show ?case by simp
next
  case (Suc fuel)
  define s1 where "s1 = (if localMatrixDirty (objs s r) then buildLocalMatrix r s else s)"
  have k1: "localKept s s1" unfolding s1_def by (rule localKept_buildLocalMatrix)
  show ?case
  proof (cases "parent (objs s1 r)")
    case None
    then have "s' = updObj r (\<lambda>ob. ob\<lparr>worldMatrix := localMatrix ob, worldMatrixDirty := False\<rparr>) s1"
      using Suc.prems by (simp add: s1_def[symmetric] Let_def)
    then have "localKept s1 s'" by (simp add: localKept_setWorld)
    then show ?thesis using k1 by (rule localKept_trans[rotated])
  next
    case (Some p)
    then obtain s2 where
      s2: "(if worldMatrixDirty (objs s1 p) then buildWorldMatrix fuel p s1 else Some s1) = Some s2"
      and s': "s' = updObj r (\<lambda>ob. ob\<lparr>worldMatrix := mulMat4 (worldMatrix (objs s2 p)) (localMatrix ob),
                                     worldMatrixDirty := False\<rparr>) s2"
      using Suc.prems by (auto simp: s1_def[symmetric] Let_def split: option.splits)
    have k2: "localKept s1 s2" using s2 Suc.IH by (auto split: if_splits)
    have k3: "localKept s2 s'" unfolding s' by (rule localKept_setWorld)
    show ?thesis by (rule localKept_trans[OF localKept_trans[OF k1 k2] k3])
  qed
qed

lemma buildWorldMatrix_result:
  assumes "buildWorldMatrix fuel this s = Some s'"
  shows "localMatrix (objs s' this) = effLocal (objs s this)"
    and "\<not> worldMatrixDirty (objs s' this)"
    and "parent (objs s this) = None \<Longrightarrow> worldMatrix (objs s' this) = localMatrix (objs s' this)"
    and "parent (objs s this) = Some p \<Longrightarrow> p \<noteq> this \<Longrightarrow>
           worldMatrix (objs s' this) = mulMat4 (worldMatrix (objs s' p)) (localMatrix (objs s' this))"
proof -
  obtain k where k: "fuel = Suc k" using assms by (cases fuel) auto
  define s1 where "s1 = (if localMatrixDirty (objs s this) then buildLocalMatrix this s else s)"
  have l1: "\<not> localMatrixDirty (objs s1 this)" "localMatrix (objs s1 this) = effLocal (objs s this)"
    and p1: "parent (objs s1 this) = parent (objs s this)"
    by (auto simp: s1_def buildLocalMatrix_def updObj_def effLocal_def)
  have "localMatrix (objs s' this) = effLocal (objs s this) \<and> \<not> worldMatrixDirty (objs s' this)
    \<and> (parent (objs s this) = None \<longrightarrow> worldMatrix (objs s' this) = localMatrix (objs s' this))
    \<and> (\<forall>p. parent (objs s this) = Some p \<longrightarrow> p \<noteq> this \<longrightarrow>
           worldMatrix (objs s' this) = mulMat4 (worldMatrix (objs s' p)) (localMatrix (objs s' this)))"
  proof (cases "parent (objs s1 this)")
    case None
    then have "s' = updObj this (\<lambda>ob. ob\<lparr>worldMatrix := localMatrix ob, worldMatrixDirty := False\<rparr>) s1"
      using assms k by (simp add: s1_def[symmetric] Let_def)
    then show ?thesis using l1 p1 None by (simp add: updObj_def)
  next
    case (Some q)
    then obtain s2 where
      s2: "(if worldMatrixDirty (objs s1 q) then buildWorldMatrix k q s1 else Some s1) = Some s2"
      and s': "s' = updObj this (\<lambda>ob. ob\<lparr>worldMatrix := mulMat4 (worldMatrix (objs s2 q)) (localMatrix ob),
                                     worldMatrixDirty := False\<rparr>) s2"
      using assms k by (auto simp: s1_def[symmetric] Let_def split: option.splits)
    have "localKept s1 s2" using s2 buildWorldMatrix_localKept by (auto split: if_splits)
    then have "effLocal (objs s2 this) = effLocal (objs s1 this)" "\<not> localMatrixDirty (objs s2 this)"
      using l1 by (auto simp: localKept_def)
    then have "localMatrix (objs s2 this) = effLocal (objs s this)"
      using l1 by (simp add: effLocal_def)
    then show ?thesis using s' Some p1 by (simp add: updObj_def)
  qed
  then show "localMatrix (objs s' this) = effLocal (objs s this)"
    and "\<not> worldMatrixDirty (objs s' this)"
    and "parent (objs s this) = None \<Longrightarrow> worldMatrix (objs s' this) = localMatrix (objs s' this)"
    and "parent (objs s this) = Some p \<Longrightarrow> p \<noteq> this \<Longrightarrow>
           worldMatrix (objs s' this) = mulMat4 (worldMatrix (objs s' p)) (localMatrix (objs s' this))"
    by blast+
qed

lemma parentChain_localKept: "localKept s t \<Longrightarrow> parentChain t ns = parentChain s ns"
  by (rule parentChain_cong) (simp add: localKept_def)

lemma worldProduct_localKept: "localKept s t \<Longrightarrow> worldProduct t ns = worldProduct s ns"
  by (induction s ns rule: worldProduct.induct) (simp_all add: localKept_def)

lemma buildWorldMatrix_chain:
  "parentChain s ns \<Longrightarrow> (\<forall>n \<in> set ns. worldMatrixDirty (objs s n)) \<Longrightarrow>
     \<exists>s'. buildWorldMatrix (length ns) (hd ns) s = Some s'
         \<and> worldMatrix (objs s' (hd ns)) = worldProduct s ns"
proof (induction ns arbitrary: s)
  case Nil
  then show ?case by simp
next
  case (Cons n ns)
  define s1 where "s1 = (if localMatrixDirty (objs s n) then buildLocalMatrix n s else s)"
  have k1: "localKept s s1" unfolding s1_def by (rule localKept_buildLocalMatrix)
  have l1: "\<not> localMatrixDirty (objs s1 n)" "localMatrix (objs s1 n) = effLocal (objs s n)"
    and w1: "\<And>m. worldMatrixDirty (objs s1 m) = worldMatrixDirty (objs s m)"
    by (auto simp: s1_def buildLocalMatrix_def updObj_def effLocal_def)
  show ?case
  proof (cases ns)
    case Nil
    then have "parent (objs s1 n) = None" using Cons.prems(1) k1 by (simp add: localKept_def)
    then show ?thesis using Nil l1 by (simp add: s1_def[symmetric] Let_def updObj_def)
  next
    case (Cons p rest)
    have par: "parent (objs s1 n) = Some p"
      using Cons.prems(1) Cons k1 by (simp add: localKept_def)
    have "parentChain s1 ns" using Cons.prems(1) Cons k1 by (simp add: parentChain_localKept)
    moreover have "\<forall>m \<in> set ns. worldMatrixDirty (objs s1 m)" using Cons.prems(2) w1 by simp
    ultimately obtain s2 where s2: "buildWorldMatrix (length ns) (hd ns) s1 = Some s2"
      and w2: "worldMatrix (objs s2 (hd ns)) = worldProduct s1 ns"
      using Cons.IH by blast
    have k2: "localKept s1 s2" using s2 by (rule buildWorldMatrix_localKept)
    then have "effLocal (objs s2 n) = effLocal (objs s1 n)" "\<not> localMatrixDirty (objs s2 n)"
      using l1 by (auto simp: localKept_def)
    then have loc: "localMatrix (objs s2 n) = effLocal (objs s n)"
      using l1 by (simp add: effLocal_def)
    have dp: "worldMatrixDirty (objs s1 p)" using Cons.prems(2) Cons w1 by simp
    have "worldProduct s1 ns = worldProduct s ns" using k1 by (rule worldProduct_localKept)
    then show ?thesis using Cons par dp s2 w2 loc
      by (simp add: s1_def[symmetric] Let_def updObj_def)
  qed
qed

lemma get_worldMatrix_chain:
  assumes "parentChain s ns" and "\<forall>n \<in> set ns. worldMatrixDirty (objs s n)"
  shows "\<exists>s'. get_worldMatrix (length ns) (hd ns) s = Some (worldProduct s ns, s')"
proof -
  have "ns \<noteq> []" using assms(1) by auto
  then have "worldMatrixDirty (objs s (hd ns))" using assms(2) by simp
  then show ?thesis using buildWorldMatrix_chain[OF assms] by (auto simp: get_worldMatrix_def)
qed

subsection \<open>Setting a transform and reading a world matrix below it\<close>

lemma parentChain_last_root: "parentChain s ns \<Longrightarrow> parent (objs s (last ns)) = None"
  by (induction s ns rule: parentChain.induct) simp_all

lemma subtree_snoc:
  "subtree s a b \<Longrightarrow> c \<in> set (childList (objs s b)) \<Longrightarrow> subtree s a c"
  by (induction rule: subtree.induct) (auto intro: subtree.intros)

lemma childPath_subtree: "childPath s ns \<Longrightarrow> n \<in> set ns \<Longrightarrow> subtree s (last ns) n"
proof (induction s ns arbitrary: n rule: childPath.induct)
  case (1 s m p rest)
  have up: "subtree s (last (p # rest)) p" using "1.IH"[of p] "1.prems"(1) by simp
  show ?case
  proof (cases "n = m")
    case True
    have "m \<in> set (childList (objs s p))" using "1.prems"(1) by simp
    then have "subtree s (last (p # rest)) m" using up subtree_snoc by blast
    then show ?thesis using True by simp
  next
    case False
    then have "subtree s (last (p # rest)) n" using "1.IH"[of n] "1.prems" by simp
    then show ?thesis by simp
  qed
qed (simp_all add: subtree.self)

lemma effLocal_markWorldDirty [simp]: "effLocal (markWorldDirty ob) = effLocal ob"
  by (simp add: effLocal_def markWorldDirty_def)

lemma transform_set_chain:
  fixes g :: "obj \<Rightarrow> obj"
  assumes desc: "descending s d" and bound: "d (last ns) < fuel"
    and chain: "parentChain s ns" and path: "childPath s ns"
    and gp: "\<And>ob. parent (g ob) = parent ob" and gc: "\<And>ob. childList (g ob) = childList ob"
  shows "\<exists>s2 s3. setLocalMatrixDirty fuel (last ns) (updObj (last ns) g s) = Some s2
      \<and> setBoundaryDirty fuel (last ns) s2 = Some s3
      \<and> readsRebuilt s ns (imageDirty s3)
           (composeMat4 (position (g (objs s (last ns)))) (quaternion (g (objs s (last ns))))
              (scale (g (objs s (last ns)))))"
proof -
  define r where "r = last ns"
  define s0 where "s0 = updObj r (\<lambda>ob. ob\<lparr>localMatrixDirty := True\<rparr>) (updObj r g s)"
  have c0: "\<And>m. childList (objs s0 m) = childList (objs s m)"
    and p0: "\<And>m. parent (objs s0 m) = parent (objs s m)"
    by (auto simp: s0_def updObj_def gp gc)
  have d0: "descending s0 d" using desc c0 by (simp add: descending_def)
  then obtain s2 where s2: "setWorldMatrixDirty fuel r s0 = Some s2"
    using setWorldMatrixDirty_total bound r_def by blast
  have e2: "s2 = markAll {n. subtree s r n} s0"
    using setWorldMatrixDirty_exact[OF s2] subtree_cong[of s0 s, OF c0] by simp
  have p2: "\<And>m. parent (objs s2 m) = parent (objs s m)"
    by (simp add: e2 markAll_def markWorldDirty_def p0)
  have "descending s2 d" using d0 by (simp add: e2 descending_def)
  moreover have "parentChain s2 [r]"
    using parentChain_last_root[OF chain] p2 by (simp add: r_def)
  moreover have "length [r] \<le> fuel" using bound by simp
  ultimately obtain s3 where s3: "setBoundaryDirty fuel r s2 = Some s3"
    using setBoundaryDirty_total[of s2 d r fuel "[r]"] bound r_def by auto
  have bo: "boundaryOnly s2 s3" using s3 by (rule setBoundaryDirty_boundaryOnly)
  define s1 where "s1 = imageDirty s3"
  have o1: "objs s1 = objs s3" by (simp add: s1_def imageDirty_def)
  have p1: "\<And>m. parent (objs s1 m) = parent (objs s m)"
    using boundaryOnly_field[OF bo, of parent] p2 by (simp add: o1)
  have w1: "worldMatrixDirty (objs s1 n)" if "n \<in> set ns" for n
  proof -
    have "subtree s r n" using childPath_subtree[OF path that] by (simp add: r_def)
    then have "worldMatrixDirty (objs s2 n)" by (simp add: e2 markAll_def markWorldDirty_def)
    then show ?thesis using boundaryOnly_field[OF bo, of worldMatrixDirty n] by (simp add: o1)
  qed
  have e1: "effLocal (objs s1 m) = effLocal (objs s0 m)" for m
  proof -
    have "effLocal (objs s3 m) = effLocal (objs s2 m)"
      by (rule boundaryOnly_field[OF bo]) (simp add: effLocal_def)
    then show ?thesis by (simp add: o1 e2 markAll_def)
  qed
  have "parentChain s1 ns" using chain parentChain_cong[of s1 s, OF p1] by simp
  then obtain s4 where "get_worldMatrix (length ns) (hd ns) s1 = Some (worldProduct s1 ns, s4)"
    using get_worldMatrix_chain w1 by blast
  moreover have "effLocal (objs s1 r)
      = composeMat4 (position (g (objs s r))) (quaternion (g (objs s r))) (scale (g (objs s r)))"
    by (subst e1) (simp add: s0_def updObj_def effLocal_def)
  moreover have "\<forall>n. n \<noteq> r \<longrightarrow> effLocal (objs s1 n) = effLocal (objs s n)"
    by (simp add: e1 s0_def updObj_def)
  ultimately have "readsRebuilt s ns s1
      (composeMat4 (position (g (objs s r))) (quaternion (g (objs s r))) (scale (g (objs s r))))"
    unfolding readsRebuilt_def r_def by blast
  then show ?thesis using s2 s3 unfolding s1_def r_def s0_def setLocalMatrixDirty_def by blast
qed

lemma set_rotation_chain:
  assumes "descending s d" and "d (last ns) < fuel" and "parentChain s ns" and "childPath s ns"
  shows "\<exists>s1. set_rotation fuel (last ns) v s = Some s1
     \<and> readsRebuilt s ns s1 (composeMat4 (position (objs s (last ns)))
          (eulerToQuaternion (case v of None \<Rightarrow> (0, 0, 0) | Some x \<Rightarrow> x))
          (scale (objs s (last ns))))"
proof -
  define g where "g = (\<lambda>ob::obj. ob\<lparr>rotation := (case v of None \<Rightarrow> (0, 0, 0) | Some x \<Rightarrow> x),
      quaternion := eulerToQuaternion (case v of None \<Rightarrow> (0, 0, 0) | Some x \<Rightarrow> x)\<rparr>)"
  have eq: "updObj (last ns) (\<lambda>ob. ob\<lparr>quaternion := eulerToQuaternion (rotation ob)\<rparr>)
      (updObj (last ns) (\<lambda>ob. ob\<lparr>rotation := (case v of None \<Rightarrow> (0, 0, 0) | Some x \<Rightarrow> x)\<rparr>) s)
      = updObj (last ns) g s"
    by (simp add: updObj_def g_def)
  have "\<And>ob. parent (g ob) = parent ob" "\<And>ob. childList (g ob) = childList ob"
    by (simp_all add: g_def)
  from transform_set_chain[OF assms this] obtain s2 s3 where
    "setLocalMatrixDirty fuel (last ns) (updObj (last ns) g s) = Some s2"
    "setBoundaryDirty fuel (last ns) s2 = Some s3"
    "readsRebuilt s ns (imageDirty s3)
       (composeMat4 (position (g (objs s (last ns)))) (quaternion (g (objs s (last ns))))
          (scale (g (objs s (last ns)))))"
    by blast
  then show ?thesis by (simp add: set_rotation_def eq Let_def) (simp add: g_def)
qed

lemma set_position_chain:
  assumes "descending s d" and "d (last ns) < fuel" and "parentChain s ns" and "childPath s ns"
  shows "\<exists>s1. set_position fuel (last ns) v s = Some s1
     \<and> readsRebuilt s ns s1 (composeMat4 (case v of None \<Rightarrow> (0, 0, 0) | Some x \<Rightarrow> x)
          (quaternion (objs s (last ns))) (scale (objs s (last ns))))"
proof -
  define g where "g = (\<lambda>ob::obj. ob\<lparr>position := (case v of None \<Rightarrow> (0, 0, 0) | Some x \<Rightarrow> x)\<rparr>)"
  have "\<And>ob. parent (g ob) = parent ob" "\<And>ob. childList (g ob) = childList ob"
    by (simp_all add: g_def)
  from transform_set_chain[OF assms this] obtain s2 s3 where
    "setLocalMatrixDirty fuel (last ns) (updObj (last ns) g s) = Some s2"
    "setBoundaryDirty fuel (last ns) s2 = Some s3"
    "readsRebuilt s ns (imageDirty s3)
       (composeMat4 (position (g (objs s (last ns)))) (quaternion (g (objs s (last ns))))
          (scale (g (objs s (last ns)))))"
    by blast
  then show ?thesis by (simp add: set_position_def Let_def g_def)
qed

lemma set_scale_chain:
  assumes "descending s d" and "d (last ns) < fuel" and "parentChain s ns" and "childPath s ns"
  shows "\<exists>s1. set_scale fuel (last ns) v s = Some s1
     \<and> readsRebuilt s ns s1 (composeMat4 (position (objs s (last ns)))
          (quaternion (objs s (last ns))) (case v of None \<Rightarrow> (1, 1, 1) | Some x \<Rightarrow> x))"
proof -
  define g where "g = (\<lambda>ob::obj. ob\<lparr>scale := (case v of None \<Rightarrow> (1, 1, 1) | Some x \<Rightarrow> x)\<rparr>)"
  have "\<And>ob. parent (g ob) = parent ob" "\<And>ob. childList (g ob) = childList ob"
    by (simp_all add: g_def)
  from transform_set_chain[OF assms this] obtain s2 s3 where
    "setLocalMatrixDirty fuel (last ns) (updObj (last ns) g s) = Some s2"
    "setBoundaryDirty fuel (last ns) s2 = Some s3"
    "readsRebuilt s ns (imageDirty s3)
       (composeMat4 (position (g (objs s (last ns)))) (quaternion (g (objs s (last ns))))
          (scale (g (objs s (last ns)))))"
    by blast
  then show ?thesis by (simp add: set_scale_def Let_def g_def)
qed

subsection \<open>What the invalidation routines leave alone\<close>

lemma flagsOnly_refl [simp]: "flagsOnly s s"
  by (simp add: flagsOnly_def)

lemma flagsOnly_trans: "flagsOnly s t \<Longrightarrow> flagsOnly t u \<Longrightarrow> flagsOnly s u"
  by (simp add: flagsOnly_def)

lemma flagsOnly_field:
  assumes "flagsOnly s t" and "\<And>ob. f (clearFlags ob) = f ob"
  shows "f (objs t m) = f (objs s m)"
proof -
  have "f (clearFlags (objs t m)) = f (clearFlags (objs s m))"
    using assms(1) by (simp add: flagsOnly_def)
  then show ?thesis by (simp add: assms(2))
qed

lemma clearFlags_markWorldDirty [simp]: "clearFlags (markWorldDirty ob) = clearFlags ob"
  by (simp add: clearFlags_def markWorldDirty_def)

lemma flagsOnly_markAll: "flagsOnly s (markAll T s)"
  by (simp add: flagsOnly_def markAll_def)

lemma boundaryOnly_flagsOnly: "boundaryOnly s t \<Longrightarrow> flagsOnly s t"
  unfolding flagsOnly_def
proof
  fix m assume "boundaryOnly s t"
  then have "objs t m = (objs s m)\<lparr>obbDirty := obbDirty (objs t m)\<rparr>"
    by (simp add: boundaryOnly_def)
  then have "clearFlags (objs t m) = clearFlags ((objs s m)\<lparr>obbDirty := obbDirty (objs t m)\<rparr>)"
    by simp
  then show "clearFlags (objs t m) = clearFlags (objs s m)" by (simp add: clearFlags_def)
qed

lemma setWorldMatrixDirty_flagsOnly:
  "setWorldMatrixDirty fuel r s = Some s' \<Longrightarrow> flagsOnly s s'"
  using setWorldMatrixDirty_exact flagsOnly_markAll by fastforce

lemma setBoundaryDirty_flagsOnly: "setBoundaryDirty fuel r s = Some s' \<Longrightarrow> flagsOnly s s'"
  using setBoundaryDirty_boundaryOnly boundaryOnly_flagsOnly by blast

lemma flagsOnly_updFlag: "flagsOnly s (updObj r (\<lambda>ob. ob\<lparr>localMatrixDirty := b\<rparr>) s)"
  by (simp add: flagsOnly_def updObj_def clearFlags_def)

lemma setLocalMatrixDirty_flagsOnly:
  "setLocalMatrixDirty fuel r s = Some s' \<Longrightarrow> flagsOnly s s'"
  unfolding setLocalMatrixDirty_def
  using setWorldMatrixDirty_flagsOnly flagsOnly_updFlag flagsOnly_trans by blast

lemma flagsOnly_imageDirty: "flagsOnly s (imageDirty s)"
  by (simp add: flagsOnly_def imageDirty_def)

lemma flagsOnly_descending: "flagsOnly s t \<Longrightarrow> descending t d = descending s d"
  by (rule descending_cong) (erule flagsOnly_field, simp add: clearFlags_def)

lemma flagsOnly_parentChain: "flagsOnly s t \<Longrightarrow> parentChain t ns = parentChain s ns"
  by (rule parentChain_cong) (erule flagsOnly_field, simp add: clearFlags_def)

text \<open>
  The two calls that end every transform setter: afterwards the node's local matrix, world
  matrix and boundary are dirty, and nothing but dirty flags has changed in the store.
\<close>

lemma dirty_tail:
  assumes "setLocalMatrixDirty fuel r s = Some s2" and "setBoundaryDirty fuel r s2 = Some s3"
  shows "flagsOnly s s3 \<and> localMatrixDirty (objs s3 r) \<and> worldMatrixDirty (objs s3 r)
     \<and> aabbDirty (objs s3 r) \<and> obbDirty (objs s3 r)"
proof -
  define s0 where "s0 = updObj r (\<lambda>ob. ob\<lparr>localMatrixDirty := True\<rparr>) s"
  have "setWorldMatrixDirty fuel r s0 = Some s2"
    using assms(1) by (simp add: setLocalMatrixDirty_def s0_def)
  then have "s2 = markAll {n. subtree s0 r n} s0" by (rule setWorldMatrixDirty_exact)
  then have o2: "objs s2 r = markWorldDirty (objs s0 r)"
    by (simp add: markAll_def subtree.self)
  have flags2: "localMatrixDirty (objs s2 r)" "worldMatrixDirty (objs s2 r)"
    "aabbDirty (objs s2 r)" "obbDirty (objs s2 r)"
    by (simp_all add: o2 markWorldDirty_def s0_def updObj_def)
  have bo: "boundaryOnly s2 s3" using assms(2) by (rule setBoundaryDirty_boundaryOnly)
  have "localMatrixDirty (objs s3 r)" "worldMatrixDirty (objs s3 r)" "aabbDirty (objs s3 r)"
    using boundaryOnly_field[OF bo, of localMatrixDirty r]
      boundaryOnly_field[OF bo, of worldMatrixDirty r]
      boundaryOnly_field[OF bo, of aabbDirty r] flags2 by simp_all
  moreover have "obbDirty (objs s3 r)" using bo flags2(4) by (simp add: boundaryOnly_def)
  moreover have "flagsOnly s s3"
    using setLocalMatrixDirty_flagsOnly[OF assms(1)] setBoundaryDirty_flagsOnly[OF assms(2)]
    by (rule flagsOnly_trans)
  ultimately show ?thesis by simp
qed

lemma dirty_tail_total:
  assumes "descending s d" and "d r < fuel"
    and "parentChain s ns" and "hd ns = r" and "length ns \<le> fuel"
  shows "\<exists>s2 s3. setLocalMatrixDirty fuel r s = Some s2 \<and> setBoundaryDirty fuel r s2 = Some s3"
proof -
  define s0 where "s0 = updObj r (\<lambda>ob. ob\<lparr>localMatrixDirty := True\<rparr>) s"
  have f0: "flagsOnly s s0" unfolding s0_def by (rule flagsOnly_updFlag)
  then have "descending s0 d" using assms(1) by (simp add: flagsOnly_descending)
  then obtain s2 where s2: "setWorldMatrixDirty fuel r s0 = Some s2"
    using setWorldMatrixDirty_total assms(2) by blast
  have f2: "flagsOnly s s2"
    using f0 setWorldMatrixDirty_flagsOnly[OF s2] by (rule flagsOnly_trans)
  then have "descending s2 d" "parentChain s2 ns"
    using assms(1,3) by (simp_all add: flagsOnly_descending flagsOnly_parentChain)
  then obtain s3 where "setBoundaryDirty fuel r s2 = Some s3"
    using setBoundaryDirty_total assms(2,4,5) by blast
  then show ?thesis using s2 by (simp add: setLocalMatrixDirty_def s0_def)
qed

subsection \<open>What the inherited-state setters and the hierarchy methods leave alone\<close>

lemma setInherited_field:
  assumes "\<And>ob. f (store ob) = f ob"
  shows "setInherited fuel store hk r s = Some s' \<Longrightarrow> f (objs s' m) = f (objs s m)"
proof (induction fuel arbitrary: r s s')
  case 0
  then show ?case by simp
next
  case (Suc fuel)
  define s1 where "s1 = updObj r store s"
  from Suc.prems obtain s2 where
    loop: "forEach (\<lambda>c s'. setInherited fuel store hk c s') (childList (objs s1 r)) s1 = Some s2"
    and s': "objs s' = objs s2"
    by (auto simp: s1_def[symmetric] Let_def callHook_def split: option.splits if_splits)
  have "f (objs s1 m) = f (objs s m)" by (simp add: s1_def updObj_def assms)
  then have "f (objs s2 m) = f (objs s m)"
    by (rule forEach_inv[OF loop, where P = "\<lambda>t. f (objs t m) = f (objs s m)"])
       (use Suc.IH in auto)
  then show ?case by (simp add: s')
qed

lemma rotOf_eqI:
  "(\<And>m. quaternion (objs t m) = quaternion (objs s m))
    \<Longrightarrow> (\<And>m. rotation (objs t m) = rotation (objs s m)) \<Longrightarrow> rotOf t = rotOf s"
  by (simp add: rotOf_def fun_eq_iff)

lemma setInherited_rotOf:
  assumes "\<And>ob. quaternion (store ob) = quaternion ob" and "\<And>ob. rotation (store ob) = rotation ob"
    and "setInherited fuel store hk r s = Some s'"
  shows "rotOf s' = rotOf s"
  by (rule rotOf_eqI) (rule setInherited_field[OF _ assms(3)], simp add: assms)+

lemma storeColorize_keeps [simp]:
  "quaternion (storeColorize rgb ob) = quaternion ob"
  "rotation (storeColorize rgb ob) = rotation ob"
  "childList (storeColorize rgb ob) = childList ob"
  "parent (storeColorize rgb ob) = parent ob"
  by (simp_all add: storeColorize_def split: prod.splits option.splits)

lemma storeOpacity_keeps [simp]:
  "quaternion (storeOpacity a ob) = quaternion ob"
  "rotation (storeOpacity a ob) = rotation ob"
  "childList (storeOpacity a ob) = childList ob"
  "parent (storeOpacity a ob) = parent ob"
  by (simp_all add: storeOpacity_def Let_def split: prod.splits option.splits)

lemma setters_rotOf:
  "set_visible fuel r b s = Some s' \<Longrightarrow> rotOf s' = rotOf s"
  "set_highlighted fuel r b s = Some s' \<Longrightarrow> rotOf s' = rotOf s"
  "set_ghosted fuel r b s = Some s' \<Longrightarrow> rotOf s' = rotOf s"
  "set_selected fuel r b s = Some s' \<Longrightarrow> rotOf s' = rotOf s"
  "set_culled fuel r b s = Some s' \<Longrightarrow> rotOf s' = rotOf s"
  "set_clippable fuel r b s = Some s' \<Longrightarrow> rotOf s' = rotOf s"
  "set_collidable fuel r b s = Some s' \<Longrightarrow> rotOf s' = rotOf s"
  "set_pickable fuel r b s = Some s' \<Longrightarrow> rotOf s' = rotOf s"
  "set_outlined fuel r b s = Some s' \<Longrightarrow> rotOf s' = rotOf s"
  "set_castShadow fuel r b s = Some s' \<Longrightarrow> rotOf s' = rotOf s"
  "set_receiveShadow fuel r b s = Some s' \<Longrightarrow> rotOf s' = rotOf s"
  "set_colorize fuel r rgb s = Some s' \<Longrightarrow> rotOf s' = rotOf s"
  "set_opacity fuel r a s = Some s' \<Longrightarrow> rotOf s' = rotOf s"
  unfolding set_visible_def set_highlighted_def set_ghosted_def set_selected_def set_culled_def
    set_clippable_def set_collidable_def set_pickable_def set_outlined_def set_castShadow_def
    set_receiveShadow_def set_colorize_def set_opacity_def Let_def
  by (erule setInherited_rotOf[rotated 2]; simp)+

lemma flagsOnly_rotOf: "flagsOnly s t \<Longrightarrow> rotOf t = rotOf s"
  by (rule rotOf_eqI) (erule flagsOnly_field, simp add: clearFlags_def)+

lemma rotOf_updObj:
  "quaternion (g (objs s r)) = quaternion (objs s r) \<Longrightarrow> rotation (g (objs s r)) = rotation (objs s r)
    \<Longrightarrow> rotOf (updObj r g s) = rotOf s"
  by (simp add: rotOf_def updObj_def fun_eq_iff)

lemma rotOf_others [simp]:
  "rotOf (imageDirty s) = rotOf s" "rotOf (callHook h s) = rotOf s"
  "rotOf (report r m s) = rotOf s"
  "rotOf (s\<lparr>rootObjects := ro\<rparr>) = rotOf s"
  by (simp_all add: rotOf_def imageDirty_def callHook_def report_def fun_eq_iff)

lemma invalidate_rotOf:
  "setWorldMatrixDirty fuel r s = Some s' \<Longrightarrow> rotOf s' = rotOf s"
  "setLocalMatrixDirty fuel r s = Some s' \<Longrightarrow> rotOf s' = rotOf s"
  "setBoundaryDirty fuel r s = Some s' \<Longrightarrow> rotOf s' = rotOf s"
  using setWorldMatrixDirty_flagsOnly setLocalMatrixDirty_flagsOnly setBoundaryDirty_flagsOnly
    flagsOnly_rotOf by blast+

lemma set_scale_rotOf: "set_scale fuel r v s = Some s' \<Longrightarrow> rotOf s' = rotOf s"
  by (auto simp: set_scale_def Let_def bind_eq_Some_conv rotOf_updObj dest!: invalidate_rotOf)

lemma set_position_rotOf: "set_position fuel r v s = Some s' \<Longrightarrow> rotOf s' = rotOf s"
  by (auto simp: set_position_def Let_def bind_eq_Some_conv rotOf_updObj dest!: invalidate_rotOf)

lemma set_entityType_rotOf: "rotOf (set_entityType r e s) = rotOf s"
  by (simp add: set_entityType_def Let_def rotOf_updObj split: option.splits)

lemma set_helpers_rotOf:
  "rotOf (set_aabbVisible r b s) = rotOf s" "rotOf (set_obbVisible r b s) = rotOf s"
  by (simp_all add: set_aabbVisible_def set_obbVisible_def rotOf_updObj)

lemma removeChild_rotOf: "removeChild fuel this object s = Some s' \<Longrightarrow> rotOf s' = rotOf s"
  by (auto simp: removeChild_def Let_def bind_eq_Some_conv rotOf_updObj
      split: option.splits dest!: invalidate_rotOf)

lemma inheritStates_rotOf: "inheritStates fuel this object s = Some s' \<Longrightarrow> rotOf s' = rotOf s"
  by (auto simp: inheritStates_def Let_def bind_eq_Some_conv rotOf_updObj dest!: setters_rotOf)

lemma addChild_rotOf: "addChild fuel this a inh s = Some (r, s') \<Longrightarrow> rotOf s' = rotOf s"
  by (auto simp: addChild_def addChild_resolve_def Let_def bind_eq_Some_conv rotOf_updObj
      split: option.splits sum.splits arg.splits if_splits
      dest!: invalidate_rotOf inheritStates_rotOf removeChild_rotOf)

subsection \<open>Construction\<close>

lemma initTransform_rotOf:
  "cfg_matrix c = None \<Longrightarrow> cfg_quaternion c = Some q
    \<Longrightarrow> initTransform M fuel this c s = Some s' \<Longrightarrow> rotOf s' = rotOf s"
  by (auto simp: initTransform_def bind_eq_Some_conv dest!: set_scale_rotOf set_position_rotOf)

lemma initProperties_rotOf: "initProperties fuel this c s = Some s' \<Longrightarrow> rotOf s' = rotOf s"
  by (auto simp: initProperties_def Let_def bind_eq_Some_conv rotOf_updObj set_helpers_rotOf
      dest!: setters_rotOf)

lemma addChildren_rotOf:
  "forEach (\<lambda>ch s'. map_option snd (addChild fuel this ch inh s')) chs s = Some s'
    \<Longrightarrow> rotOf s' = rotOf s"
  by (erule forEach_inv[where P = "\<lambda>t. rotOf t = rotOf s"]) (auto dest: addChild_rotOf)

lemma init_rotOf:
  assumes "cfg_matrix c = None" and "cfg_quaternion c = Some q"
    and "init M fuel this c s = Some s'"
  shows "rotOf s' this = (identityQuaternion, vec3zero)"
proof -
  define s0 where "s0 = set_entityType this (cfg_entityType c) (updObj this (initFields c) s)"
  from assms(3) obtain s1 s2 s3 where
    a: "initTransform M fuel this c s0 = Some s1"
    and b: "initProperties fuel this c s1 = Some s2"
    and k: "forEach (\<lambda>ch s'. map_option snd (addChild fuel this ch (cfg_inheritStates c) s'))
              (cfg_children c) s2 = Some s3"
    and p: "(case cfg_parent c of None \<Rightarrow> Some s3
             | Some p \<Rightarrow> map_option snd (addChild fuel p (ArgObject this) None s3)) = Some s'"
    by (auto simp: init_def Let_def bind_eq_Some_conv s0_def)
  have "rotOf s' = rotOf s3" using p by (auto split: option.splits dest: addChild_rotOf)
  also have "\<dots> = rotOf s2" using k by (rule addChildren_rotOf)
  also have "\<dots> = rotOf s1" using b by (rule initProperties_rotOf)
  also have "\<dots> = rotOf s0" using assms(1,2) a by (rule initTransform_rotOf)
  also have "\<dots> = rotOf (updObj this (initFields c) s)"
    by (simp add: s0_def set_entityType_rotOf)
  finally show ?thesis by (simp add: rotOf_def updObj_def initFields_def)
qed

text \<open>On a node without children and without parent every setter returns.\<close>

lemma flagsOnly_soleNode: "flagsOnly s t \<Longrightarrow> soleNode t r = soleNode s r"
  using flagsOnly_field[of s t childList r] flagsOnly_field[of s t parent r]
  by (simp add: soleNode_def clearFlags_def)

lemma sole_tail:
  assumes "soleNode s r"
  shows "\<exists>s2 s3. setLocalMatrixDirty (Suc fuel) r s = Some s2
      \<and> setBoundaryDirty (Suc fuel) r s2 = Some s3 \<and> soleNode s3 r"
proof -
  obtain s2 where s2: "setLocalMatrixDirty (Suc fuel) r s = Some s2"
    using assms by (simp add: setLocalMatrixDirty_def soleNode_def updObj_def markWorldDirty_def)
  have sole2: "soleNode s2 r"
    using setLocalMatrixDirty_flagsOnly[OF s2] assms by (simp add: flagsOnly_soleNode)
  have sub: "setSubtreeBoundariesDirty (Suc fuel) r (s2, []) = Some (markBoundaryDirty r (s2, []))"
    using sole2 by (simp add: soleNode_def)
  have "boundaryOnly s2 (fst (markBoundaryDirty r (s2, [])))"
    using boundaryOnly_markBoundaryDirty[of "(s2, [])" r] by simp
  then have "parentChain (fst (markBoundaryDirty r (s2, []))) [r]"
    using sole2 boundaryOnly_parentChain[of s2 _ "[r]"] by (simp add: soleNode_def)
  then obtain sn2 where
    "setParentBoundariesDirty (Suc fuel) (Some r) (markBoundaryDirty r (s2, [])) = Some sn2"
    using setParentBoundariesDirty_total[of "markBoundaryDirty r (s2, [])" "[r]" "Suc fuel"]
    by auto
  then obtain s3 where s3: "setBoundaryDirty (Suc fuel) r s2 = Some s3"
    using sub by (simp add: setBoundaryDirty_def)
  have "soleNode s3 r"
    using setBoundaryDirty_flagsOnly[OF s3] sole2 by (simp add: flagsOnly_soleNode)
  then show ?thesis using s2 s3 by blast
qed

lemma sole_transform:
  assumes "soleNode s r" and "childList (g (objs s r)) = childList (objs s r)"
    and "parent (g (objs s r)) = parent (objs s r)"
  shows "\<exists>s'. Option.bind (setLocalMatrixDirty (Suc fuel) r (updObj r g s))
            (\<lambda>s2. Option.bind (setBoundaryDirty (Suc fuel) r s2) (\<lambda>s3. Some (imageDirty s3)))
          = Some s' \<and> soleNode s' r"
proof -
  have "soleNode (updObj r g s) r" using assms by (simp add: soleNode_def updObj_def)
  from sole_tail[OF this, of fuel] obtain s2 s3 where
    "setLocalMatrixDirty (Suc fuel) r (updObj r g s) = Some s2"
    "setBoundaryDirty (Suc fuel) r s2 = Some s3" "soleNode s3 r" by blast
  then show ?thesis by (simp add: soleNode_def imageDirty_def)
qed

lemma sole_set_scale:
  "soleNode s r \<Longrightarrow> \<exists>s'. set_scale (Suc fuel) r v s = Some s' \<and> soleNode s' r"
  unfolding set_scale_def Let_def by (rule sole_transform) simp_all

lemma sole_set_position:
  "soleNode s r \<Longrightarrow> \<exists>s'. set_position (Suc fuel) r v s = Some s' \<and> soleNode s' r"
  unfolding set_position_def Let_def by (rule sole_transform) simp_all

lemma sole_setInherited:
  assumes "soleNode s r" and "\<And>ob. childList (store ob) = childList ob"
    and "\<And>ob. parent (store ob) = parent ob"
  shows "\<exists>s'. setInherited (Suc fuel) store hk r s = Some s' \<and> soleNode s' r"
proof -
  obtain s' where s': "setInherited (Suc fuel) store hk r s = Some s'"
    using assms by (simp add: soleNode_def updObj_def Let_def)
  have "childList (objs s' r) = childList (objs s r)" "parent (objs s' r) = parent (objs s r)"
    using setInherited_field[OF _ s', of childList] setInherited_field[OF _ s', of parent] assms(2,3)
    by simp_all
  then show ?thesis using s' assms(1) by (simp add: soleNode_def)
qed

lemma sole_setters:
  assumes "soleNode s r"
  shows "\<exists>s'. set_visible (Suc fuel) r b s = Some s' \<and> soleNode s' r"
    and "\<exists>s'. set_highlighted (Suc fuel) r b s = Some s' \<and> soleNode s' r"
    and "\<exists>s'. set_ghosted (Suc fuel) r b s = Some s' \<and> soleNode s' r"
    and "\<exists>s'. set_selected (Suc fuel) r b s = Some s' \<and> soleNode s' r"
    and "\<exists>s'. set_culled (Suc fuel) r b s = Some s' \<and> soleNode s' r"
    and "\<exists>s'. set_clippable (Suc fuel) r b s = Some s' \<and> soleNode s' r"
    and "\<exists>s'. set_collidable (Suc fuel) r b s = Some s' \<and> soleNode s' r"
    and "\<exists>s'. set_pickable (Suc fuel) r b s = Some s' \<and> soleNode s' r"
    and "\<exists>s'. set_outlined (Suc fuel) r b s = Some s' \<and> soleNode s' r"
    and "\<exists>s'. set_castShadow (Suc fuel) r b s = Some s' \<and> soleNode s' r"
    and "\<exists>s'. set_receiveShadow (Suc fuel) r b s = Some s' \<and> soleNode s' r"
    and "\<exists>s'. set_colorize (Suc fuel) r rgb s = Some s' \<and> soleNode s' r"
    and "\<exists>s'. set_opacity (Suc fuel) r a s = Some s' \<and> soleNode s' r"
  unfolding set_visible_def set_highlighted_def set_ghosted_def set_selected_def set_culled_def
    set_clippable_def set_collidable_def set_pickable_def set_outlined_def set_castShadow_def
    set_receiveShadow_def set_colorize_def set_opacity_def Let_def
  by (rule sole_setInherited[OF assms]; simp)+

lemma sole_initProperties:
  assumes "soleNode s r"
  shows "\<exists>s'. initProperties (Suc fuel) r c s = Some s' \<and> soleNode s' r"
proof -
  obtain s1 where s1: "set_visible (Suc fuel) r (cfg_visible c) s = Some s1" "soleNode s1 r"
    using sole_setters(1)[OF assms] by blast
  obtain s2 where s2: "set_culled (Suc fuel) r (cfg_culled c) s1 = Some s2" "soleNode s2 r"
    using sole_setters(5)[OF s1(2)] by blast
  obtain s3 where s3: "set_pickable (Suc fuel) r (cfg_pickable c) s2 = Some s3" "soleNode s3 r"
    using sole_setters(8)[OF s2(2)] by blast
  obtain s4 where s4: "set_clippable (Suc fuel) r (cfg_clippable c) s3 = Some s4" "soleNode s4 r"
    using sole_setters(6)[OF s3(2)] by blast
  obtain s5 where s5: "set_collidable (Suc fuel) r (cfg_collidable c) s4 = Some s5" "soleNode s5 r"
    using sole_setters(7)[OF s4(2)] by blast
  obtain s6 where s6: "set_castShadow (Suc fuel) r (cfg_castShadow c) s5 = Some s6" "soleNode s6 r"
    using sole_setters(10)[OF s5(2)] by blast
  obtain s7 where s7: "set_receiveShadow (Suc fuel) r (cfg_receiveShadow c) s6 = Some s7"
    "soleNode s7 r"
    using sole_setters(11)[OF s6(2)] by blast
  obtain s8 where s8: "set_outlined (Suc fuel) r (cfg_outlined c) s7 = Some s8" "soleNode s8 r"
    using sole_setters(9)[OF s7(2)] by blast
  define s9 where "s9 = updObj r (\<lambda>ob. ob\<lparr>layer := cfg_layer c, stationary := cfg_stationary c,
                billboard := cfg_billboard c, solid := cfg_solid c\<rparr>) s8"
  have n9: "soleNode s9 r" using s8(2) by (simp add: s9_def soleNode_def updObj_def)
  obtain s10 where s10: "set_ghosted (Suc fuel) r (cfg_ghosted c) s9 = Some s10" "soleNode s10 r"
    using sole_setters(3)[OF n9] by blast
  obtain s11 where s11: "set_highlighted (Suc fuel) r (cfg_highlighted c) s10 = Some s11"
    "soleNode s11 r"
    using sole_setters(2)[OF s10(2)] by blast
  obtain s12 where s12: "set_selected (Suc fuel) r (cfg_selected c) s11 = Some s12" "soleNode s12 r"
    using sole_setters(4)[OF s11(2)] by blast
  obtain s13 where s13: "set_colorize (Suc fuel) r (cfg_colorize c) s12 = Some s13" "soleNode s13 r"
    using sole_setters(12)[OF s12(2)] by blast
  obtain s14 where s14: "set_opacity (Suc fuel) r (cfg_opacity c) s13 = Some s14" "soleNode s14 r"
    using sole_setters(13)[OF s13(2)] by blast
  have "soleNode (set_obbVisible r (cfg_obbVisible c) (set_aabbVisible r (cfg_aabbVisible c) s14)) r"
    using s14(2) by (simp add: set_obbVisible_def set_aabbVisible_def soleNode_def updObj_def)
  then show ?thesis
    using s1 s2 s3 s4 s5 s6 s7 s8 s10 s11 s12 s13 s14
    by (simp add: initProperties_def s9_def)
qed

lemma sole_init:
  assumes "cfg_matrix c = None" and "cfg_quaternion c = Some q"
    and "cfg_children c = []" and "cfg_parent c = None"
  shows "\<exists>s'. init M (Suc fuel) this c s = Some s'"
proof -
  define s0 where "s0 = set_entityType this (cfg_entityType c) (updObj this (initFields c) s)"
  have n0: "soleNode s0 this"
    by (simp add: s0_def soleNode_def set_entityType_def updObj_def initFields_def callHook_def
        Let_def split: option.splits)
  obtain s1 where s1: "set_scale (Suc fuel) this (cfg_scale c) s0 = Some s1" "soleNode s1 this"
    using sole_set_scale[OF n0] by blast
  obtain s2 where s2: "set_position (Suc fuel) this (cfg_position c) s1 = Some s2"
    "soleNode s2 this"
    using sole_set_position[OF s1(2)] by blast
  have t: "initTransform M (Suc fuel) this c s0 = Some s2"
    using assms(1,2) s1 s2 by (simp add: initTransform_def)
  obtain s3 where "initProperties (Suc fuel) this c s2 = Some s3"
    using sole_initProperties[OF s2(2)] by blast
  then show ?thesis using t assms(3,4) by (simp add: init_def s0_def[symmetric])
qed

subsection \<open>The paths of the hierarchy methods that leave the tree alone\<close>

text \<open>
  \<^verbatim>\<open>removeChild\<close> of an object whose id is not in the child list changes nothing;
  \<^verbatim>\<open>addChild\<close> of a reference to an object whose parent has the id of this node only
  warns; \<^verbatim>\<open>addChild\<close> of a parentless object of another scene only reports the error.
\<close>

lemma removeChild_not_a_child:
  "indexOfId (\<lambda>c. oid (objs s c)) (oid (objs s object)) (childList (objs s this)) = None
    \<Longrightarrow> removeChild fuel this object s = Some s"
  by (simp add: removeChild_def Let_def)

lemma addChild_reference_already_child:
  "parent (objs s object) = Some p \<Longrightarrow> oid (objs s p) = oid (objs s this)
    \<Longrightarrow> addChild fuel this (ArgObject object) inherit s
        = Some (None, report this (WarnAlreadyChild (oid (objs s object))) s)"
  by (simp add: addChild_def addChild_resolve_def)

lemma addChild_other_scene_parentless:
  "parent (objs s object) = None \<Longrightarrow> scene (objs s object) \<noteq> scene (objs s this)
    \<Longrightarrow> addChild fuel this (ArgObject object) inherit s
        = Some (None, report this (ErrorNotSameScene (oid (objs s object))) s)"
  by (simp add: addChild_def addChild_resolve_def Let_def)

section \<open>The claims\<close>

text \<open>
  C1. The claim: boundary invalidation on a node marks the AABB and OBB dirty on every node
  of its subtree and on every strict ancestor, and fires "boundary" once per distinct node.
  The code tests \<^verbatim>\<open>if (object._aabbDirty)\<close> where the claim needs the negation: it
  touches only nodes that are dirty already. In \<open>family\<close>, invalidating the boundary of
  the dirty child \<open>c\<close> leaves its clean parent \<open>p\<close> clean, fires nothing on \<open>p\<close>, and
  fires "boundary" on \<open>c\<close> twice (once from the subtree walk, once from the parent walk,
  which starts at the node itself).
\<close>

theorem setBoundaryDirty_skips_clean_ancestor:
  "map_option (\<lambda>s'. (aabbDirty (objs s' 0), obbDirty (objs s' 0), fired s'))
     (setBoundaryDirty (Suc (Suc 0)) 1 family)
   = Some (False, False, [(1, ''boundary''), (1, ''boundary'')])"
  by (simp add: family_def scene_defs)

text \<open>
  C2. The claim: \<^verbatim>\<open>removeChild(ci)\<close> leaves the parent's child list as it was with only
  \<open>ci\<close> removed. The code assigns the value of \<^verbatim>\<open>splice\<close>, the removed elements, to
  \<^verbatim>\<open>_childList\<close>: in \<open>siblings\<close>, after \<open>p\<close> removes \<open>a\<close> its child list is \<open>[a]\<close>,
  the parent of \<open>a\<close> is cleared, and \<open>b\<close>, still pointing to \<open>p\<close>, is no longer listed.
\<close>

theorem removeChild_keeps_removed_child:
  "map_option (\<lambda>s'. (childList (objs s' 0), parent (objs s' 1), parent (objs s' 2)))
     (removeChild (Suc (Suc 0)) 0 1 siblings)
   = Some ([1], None, Some 0)"
  by (simp add: siblings_def removeChild_def splice_def scene_defs)

text \<open>
  C5. The claim: \<^verbatim>\<open>addChild\<close> of a node that is a child already, given as a reference or
  as its id, changes nothing and warns. The test for an existing parent is in the branch
  for references only (where it does as claimed, \<open>addChild_reference_already_child\<close>): in \<open>family\<close>, \<open>p.addChild("c")\<close> returns \<open>c\<close>, lists it a second
  time and reports nothing.
\<close>

theorem addChild_by_id_adds_child_again:
  "map_option (\<lambda>(r, s'). (r, childList (objs s' 0), reports s'))
     (addChild (Suc (Suc 0)) 0 (ArgId ''c'') None family)
   = Some (Some 1, [1, 1], [])"
  by (simp add: family_def addChild_def addChild_resolve_def inheritStates_def
      setter_defs scene_defs)

text \<open>
  C6. The claim: \<^verbatim>\<open>addChild\<close> of a node of another scene reports an error and mutates
  nothing; the node keeps its parent. The code detaches the node from its parent before it
  compares the scenes (a node without parent is left alone,
  \<open>addChild_other_scene_parentless\<close>): in \<open>twoScenes\<close>, \<open>p.addChild(o)\<close> reports the error and returns
  nothing, and \<open>o\<close> has lost its parent \<open>q\<close> and become a root object of its scene.
\<close>

theorem addChild_other_scene_detaches:
  "map_option (\<lambda>(r, s'). (r, reports s', parent (objs s' 2), rootObjects s' ''B'' ''o''))
     (addChild (Suc (Suc 0)) 0 (ArgObject 2) None twoScenes)
   = Some (None, [(0, ErrorNotSameScene ''o'')], None, Some 2)"
  by (simp add: twoScenes_def addChild_def addChild_resolve_def removeChild_def splice_def
      scene_defs)

text \<open>
  C7. The claim: a successful \<^verbatim>\<open>addChild\<close> that inherits states copies the parent's
  \<^verbatim>\<open>highlighted\<close> (among the thirteen properties) to the child. The code assigns
  \<^verbatim>\<open>object.highlited\<close>: in \<open>highlightedRoot\<close>, after \<open>p.addChild(o)\<close> the child is
  attached, \<open>p\<close> is highlighted, \<open>o\<close> is not, and \<open>o\<close> has the property \<open>highlited\<close>.
\<close>

theorem addChild_leaves_highlighted:
  "map_option (\<lambda>(r, s'). (r, parent (objs s' 1), highlighted (objs s' 0),
        highlighted (objs s' 1), highlited (objs s' 1)))
     (addChild (Suc (Suc 0)) 0 (ArgObject 1) None highlightedRoot)
   = Some (Some 1, Some 0, True, False, Some True)"
  by (simp add: highlightedRoot_def addChild_def addChild_resolve_def inheritStates_def
      setter_defs scene_defs)

text \<open>
  C10. \<^verbatim>\<open>rotateOnWorldAxis\<close> returns the node and leaves the whole state as it was, for
  every node, axis and angle: the product it computes goes to a temporary only.
\<close>

theorem rotateOnWorldAxis_changes_nothing:
  "rotateOnWorldAxis this axis angle s = (this, s)"
  by (simp add: rotateOnWorldAxis_def Let_def)

text \<open>
  C3. Rebuilding the world matrix of a node first puts the local matrix in effect, then
  stores the local matrix alone for a root, and the parent's world matrix (as the parent's
  getter returns it) times the local matrix, the parent's on the left, for a node with a
  parent. Read on a parent chain of dirty nodes, the world matrix is the product of the
  local matrices along the chain. On the chain \<open>chain2\<close> of the spec's P1 the translation
  column (elements 12, 13, 14) of the child's world matrix is (1, 2, 0).
\<close>

theorem world_matrix_is_parent_world_times_local:
  "(buildWorldMatrix fuel this s = Some s' \<longrightarrow>
       localMatrix (objs s' this) = effLocal (objs s this)
     \<and> (parent (objs s this) = None \<longrightarrow>
           worldMatrix (objs s' this) = localMatrix (objs s' this))
     \<and> (\<forall>p. parent (objs s this) = Some p \<and> p \<noteq> this \<longrightarrow>
           worldMatrix (objs s' this)
             = mulMat4 (worldMatrix (objs s' p)) (localMatrix (objs s' this))))
   \<and> (parentChain s ns \<and> (\<forall>n \<in> set ns. worldMatrixDirty (objs s n)) \<longrightarrow>
        (\<exists>t. get_worldMatrix (length ns) (hd ns) s = Some (worldProduct s ns, t)))
   \<and> map_option (\<lambda>(W, t). (W ! 12, W ! 13, W ! 14)) (get_worldMatrix (Suc (Suc 0)) 1 chain2)
        = Some (1, 2, 0)"
proof (intro conjI impI allI)
  assume b: "buildWorldMatrix fuel this s = Some s'"
  show "localMatrix (objs s' this) = effLocal (objs s this)"
    using b by (rule buildWorldMatrix_result)
  show "worldMatrix (objs s' this) = localMatrix (objs s' this)" if "parent (objs s this) = None"
    using b that by (rule buildWorldMatrix_result)
  show "worldMatrix (objs s' this) = mulMat4 (worldMatrix (objs s' p)) (localMatrix (objs s' this))"
    if "parent (objs s this) = Some p \<and> p \<noteq> this" for p
    using buildWorldMatrix_result(4)[OF b, of p] that by simp
next
  assume "parentChain s ns \<and> (\<forall>n \<in> set ns. worldMatrixDirty (objs s n))"
  then show "\<exists>t. get_worldMatrix (length ns) (hd ns) s = Some (worldProduct s ns, t)"
    using get_worldMatrix_chain by blast
next
  show "map_option (\<lambda>(W, t). (W ! 12, W ! 13, W ! 14)) (get_worldMatrix (Suc (Suc 0)) 1 chain2)
        = Some (1, 2, 0)"
    by (simp add: chain2_def get_worldMatrix_def buildLocalMatrix_def composeMat4_def
        mulMat4_def identityMat4_def emptyState_def newObject_def updObj_def Let_def)
qed

theorem world_matrix_is_parent_world_times_local_witness:
  "(\<exists>s'. buildWorldMatrix (Suc (Suc 0)) 1 chain2 = Some s'
      \<and> parent (objs chain2 1) = Some 0
      \<and> worldMatrix (objs s' 1) = mulMat4 (worldMatrix (objs s' 0)) (localMatrix (objs s' 1)))
   \<and> parentChain chain2 [1, 0]
   \<and> worldMatrixDirty (objs chain2 1) \<and> worldMatrixDirty (objs chain2 0)
   \<and> (\<exists>t. get_worldMatrix (Suc (Suc 0)) 1 chain2 = Some (worldProduct chain2 [1, 0], t))"
proof -
  have p: "parent (objs chain2 1) = Some 0" "parent (objs chain2 0) = None"
    and d: "worldMatrixDirty (objs chain2 1)" "worldMatrixDirty (objs chain2 0)"
    by (simp_all add: chain2_def emptyState_def newObject_def)
  then have c: "parentChain chain2 [1, 0] \<and> (\<forall>n \<in> set [1, 0]. worldMatrixDirty (objs chain2 n))"
    by simp
  obtain s' where b: "buildWorldMatrix (Suc (Suc 0)) 1 chain2 = Some s'"
    using buildWorldMatrix_chain[of chain2 "[1, 0]"] c by auto
  show ?thesis
    using world_matrix_is_parent_world_times_local[of "Suc (Suc 0)" 1 chain2 s' "[1, 0]"] b c p d
    by simp
qed

text \<open>
  C4. \<^verbatim>\<open>_setWorldMatrixDirty\<close> marks \<^verbatim>\<open>_worldMatrixDirty\<close> and
  \<^verbatim>\<open>_worldNormalMatrixDirty\<close> on every node of the subtree, and it returns on a graph of
  children without cycles. Hence on a chain of any length from a node up to a root, every
  node listed among the children of the next, setting the root's rotation, position or
  scale returns, and reading the world matrix of the chain's first node afterwards returns
  the product of the local matrices along the chain with the root's new local matrix.
\<close>

theorem world_dirty_reaches_every_depth:
  "(setWorldMatrixDirty fuel r s = Some s' \<and> subtree s r n \<longrightarrow>
       worldMatrixDirty (objs s' n) \<and> worldNormalMatrixDirty (objs s' n))
   \<and> (descending s d \<and> d r < fuel \<longrightarrow> (\<exists>t. setWorldMatrixDirty fuel r s = Some t))
   \<and> (descending s d \<and> d (last ns) < fuel \<and> parentChain s ns \<and> childPath s ns \<longrightarrow>
        (\<exists>s1. set_rotation fuel (last ns) rv s = Some s1
            \<and> readsRebuilt s ns s1 (composeMat4 (position (objs s (last ns)))
                 (eulerToQuaternion (case rv of None \<Rightarrow> (0, 0, 0) | Some x \<Rightarrow> x))
                 (scale (objs s (last ns)))))
      \<and> (\<exists>s1. set_position fuel (last ns) pv s = Some s1
            \<and> readsRebuilt s ns s1 (composeMat4 (case pv of None \<Rightarrow> (0, 0, 0) | Some x \<Rightarrow> x)
                 (quaternion (objs s (last ns))) (scale (objs s (last ns)))))
      \<and> (\<exists>s1. set_scale fuel (last ns) sv s = Some s1
            \<and> readsRebuilt s ns s1 (composeMat4 (position (objs s (last ns)))
                 (quaternion (objs s (last ns)))
                 (case sv of None \<Rightarrow> (1, 1, 1) | Some x \<Rightarrow> x))))"
proof (intro conjI impI)
  assume "setWorldMatrixDirty fuel r s = Some s' \<and> subtree s r n"
  then have "s' = markAll {n. subtree s r n} s" and "subtree s r n"
    using setWorldMatrixDirty_exact by blast+
  then show "worldMatrixDirty (objs s' n)" and "worldNormalMatrixDirty (objs s' n)"
    by (simp_all add: markAll_def markWorldDirty_def)
next
  assume "descending s d \<and> d r < fuel"
  then show "\<exists>t. setWorldMatrixDirty fuel r s = Some t"
    using setWorldMatrixDirty_total by blast
next
  assume a: "descending s d \<and> d (last ns) < fuel \<and> parentChain s ns \<and> childPath s ns"
  show "\<exists>s1. set_rotation fuel (last ns) rv s = Some s1
            \<and> readsRebuilt s ns s1 (composeMat4 (position (objs s (last ns)))
                 (eulerToQuaternion (case rv of None \<Rightarrow> (0, 0, 0) | Some x \<Rightarrow> x))
                 (scale (objs s (last ns))))"
    using a by (intro set_rotation_chain) auto
  show "\<exists>s1. set_position fuel (last ns) pv s = Some s1
            \<and> readsRebuilt s ns s1 (composeMat4 (case pv of None \<Rightarrow> (0, 0, 0) | Some x \<Rightarrow> x)
                 (quaternion (objs s (last ns))) (scale (objs s (last ns))))"
    using a by (intro set_position_chain) auto
  show "\<exists>s1. set_scale fuel (last ns) sv s = Some s1
            \<and> readsRebuilt s ns s1 (composeMat4 (position (objs s (last ns)))
                 (quaternion (objs s (last ns)))
                 (case sv of None \<Rightarrow> (1, 1, 1) | Some x \<Rightarrow> x))"
    using a by (intro set_scale_chain) auto
qed

theorem world_dirty_reaches_every_depth_witness:
  "descending chain3 (\<lambda>r. 2 - r) \<and> parentChain chain3 [2, 1, 0] \<and> childPath chain3 [2, 1, 0]
   \<and> subtree chain3 0 2
   \<and> (\<exists>t. setWorldMatrixDirty 3 0 chain3 = Some t
          \<and> worldMatrixDirty (objs t 2) \<and> worldNormalMatrixDirty (objs t 2))
   \<and> (\<exists>s1. set_rotation 3 0 (Some (0, 0, 90)) chain3 = Some s1
          \<and> readsRebuilt chain3 [2, 1, 0] s1
               (composeMat4 (0, 0, 0) (eulerToQuaternion (0, 0, 90)) (1, 1, 1)))"
proof -
  have o: "objs chain3 0 = (cleanObject ''root'')\<lparr>childList := [1], childMap := [''child'' \<mapsto> 1]\<rparr>"
    "objs chain3 1 = (cleanObject ''child'')\<lparr>parent := Some 0, childList := [2],
              childMap := [''grandchild'' \<mapsto> 2]\<rparr>"
    "objs chain3 2 = (cleanObject ''grandchild'')\<lparr>parent := Some 1\<rparr>"
    by (simp_all add: chain3_def)
  have other: "childList (objs chain3 r) = []" if "r \<noteq> 0" "r \<noteq> 1" for r
    using that by (simp add: chain3_def emptyState_def newObject_def cleanObject_def)
  have desc: "descending chain3 (\<lambda>r. 2 - r)"
    unfolding descending_def
  proof (intro allI ballI)
    fix r c assume c: "c \<in> set (childList (objs chain3 r))"
    then have "r = 0 \<or> r = 1" using other by force
    then show "2 - c < 2 - r" using c o by (auto simp: cleanObject_def newObject_def)
  qed
  have pc: "parentChain chain3 [2, 1, 0]" and cp: "childPath chain3 [2, 1, 0]"
    by (simp_all add: o o[unfolded One_nat_def] cleanObject_def newObject_def)
  have st: "subtree chain3 0 2"
    using childPath_subtree[OF cp, of 2] by simp
  obtain t where t: "setWorldMatrixDirty 3 0 chain3 = Some t"
    using setWorldMatrixDirty_total[OF desc, of 0 3] by auto
  have pos: "position (objs chain3 0) = (0, 0, 0)" "scale (objs chain3 0) = (1, 1, 1)"
    by (simp_all add: o cleanObject_def newObject_def)
  show ?thesis
    using world_dirty_reaches_every_depth[of 3 0 chain3 t 2 "\<lambda>r. 2 - r" "[2, 1, 0]"
        "Some (0, 0, 90)"] desc pc cp st t pos
    by simp
qed

text \<open>
  C8. The claim: \<^verbatim>\<open>rotate(axis, angle)\<close> stores \<open>q * current\<close>, where \<open>q\<close> is the
  quaternion of the angle-axis pair (the new rotation applied after the existing one), and
  marks the local matrix and the boundary dirty. The code calls
  \<^verbatim>\<open>mulQuaternions(this.quaternion, q1, q2)\<close>, the current quaternion on the left: on the
  node of \<open>tilted\<close>, turned by 90 degrees about x, \<^verbatim>\<open>rotate([0,1,0], 180)\<close> stores
  \<open>current * q\<close>, whose z component has the other sign than that of \<open>q * current\<close>.
\<close>

theorem rotate_not_left_multiplied:
  "rotate someMath (Suc 0) 0 (0, 1, 0) 180 tilted \<noteq> None
   \<and> quaternion (objs (snd (the (rotate someMath (Suc 0) 0 (0, 1, 0) 180 tilted))) 0)
       \<noteq> mulQuaternions (angleAxisToQuaternion (0, 1, 0, 180 * DEGTORAD))
            (quaternion (objs tilted 0))
   \<and> quaternion (objs (snd (the (rotate someMath (Suc 0) 0 (0, 1, 0) 180 tilted))) 0)
       = (0, sqrt 2 / 2, sqrt 2 / 2, 0)
   \<and> mulQuaternions (angleAxisToQuaternion (0, 1, 0, 180 * DEGTORAD))
        (quaternion (objs tilted 0))
       = (0, sqrt 2 / 2, - (sqrt 2 / 2), 0)"
  by (simp add: rotate_def set_quaternion_def setLocalMatrixDirty_def tilted_def someMath_def
      angleAxisToQuaternion_def mulQuaternions_def DEGTORAD_def imageDirty_def scene_defs)

text \<open>
  C8, as amended: \<^verbatim>\<open>rotate(axis, angle)\<close> returns the node and stores \<open>current * q\<close>,
  the quaternion \<open>q\<close> of the angle-axis pair (angle in degrees, axis as given) multiplied
  onto the current quaternion from the right, so that the new rotation is about the node's
  own axis; afterwards the node's local matrix, world matrix, AABB and OBB are dirty. The
  call returns when the graph of children has no cycle and the node has a parent chain up
  to a root.
\<close>

theorem rotate_right_multiplies:
  "(rotate M fuel this (ax, ay, az) angle s = Some (r, s') \<longrightarrow>
      r = this
    \<and> quaternion (objs s' this)
        = mulQuaternions (quaternion (objs s this))
            (angleAxisToQuaternion (ax, ay, az, angle * DEGTORAD))
    \<and> localMatrixDirty (objs s' this) \<and> worldMatrixDirty (objs s' this)
    \<and> aabbDirty (objs s' this) \<and> obbDirty (objs s' this))
   \<and> (descending s d \<and> d this < fuel \<and> parentChain s ns \<and> hd ns = this \<and> length ns \<le> fuel
        \<longrightarrow> (\<exists>t. rotate M fuel this (ax, ay, az) angle s = Some (this, t)))"
proof (intro conjI impI)
  define q2 where "q2 = mulQuaternions (quaternion (objs s this))
      (angleAxisToQuaternion (ax, ay, az, angle * DEGTORAD))"
  define s0 where "s0 = updObj this (\<lambda>ob. ob\<lparr>rotation := quaternionToEuler M (quaternion ob)\<rparr>)
      (updObj this (\<lambda>ob. ob\<lparr>quaternion := q2\<rparr>) s)"
  have q0: "quaternion (objs s0 this) = q2" by (simp add: s0_def updObj_def)
  have shape0: "\<And>m. childList (objs s0 m) = childList (objs s m)"
    "\<And>m. parent (objs s0 m) = parent (objs s m)"
    by (simp_all add: s0_def updObj_def)
  have unfold: "rotate M fuel this (ax, ay, az) angle s =
      Option.bind (setLocalMatrixDirty fuel this s0) (\<lambda>a.
      Option.bind (setBoundaryDirty fuel this a) (\<lambda>b.
      Option.bind (setLocalMatrixDirty fuel this (imageDirty b)) (\<lambda>s2.
      Option.bind (setBoundaryDirty fuel this s2) (\<lambda>s3. Some (this, imageDirty s3)))))"
    by (simp add: rotate_def set_quaternion_def s0_def q2_def Let_def)
  {
    assume run: "rotate M fuel this (ax, ay, az) angle s = Some (r, s')"
    then obtain a b s2 s3 where
      a: "setLocalMatrixDirty fuel this s0 = Some a" and b: "setBoundaryDirty fuel this a = Some b"
      and s2: "setLocalMatrixDirty fuel this (imageDirty b) = Some s2"
      and s3: "setBoundaryDirty fuel this s2 = Some s3"
      and res: "r = this" "s' = imageDirty s3"
      unfolding unfold by (auto simp: bind_eq_Some_conv)
    have "flagsOnly s0 b" using dirty_tail[OF a b] by simp
    then have "flagsOnly s0 (imageDirty b)"
      using flagsOnly_imageDirty flagsOnly_trans by blast
    moreover have t2: "flagsOnly (imageDirty b) s3 \<and> localMatrixDirty (objs s3 this)
        \<and> worldMatrixDirty (objs s3 this) \<and> aabbDirty (objs s3 this) \<and> obbDirty (objs s3 this)"
      using dirty_tail[OF s2 s3] .
    ultimately have "flagsOnly s0 s3" using flagsOnly_trans by blast
    then have "quaternion (objs s3 this) = q2"
      using flagsOnly_field[of s0 s3 quaternion this] q0 by (simp add: clearFlags_def)
    then show "r = this"
      and "quaternion (objs s' this) = mulQuaternions (quaternion (objs s this))
            (angleAxisToQuaternion (ax, ay, az, angle * DEGTORAD))"
      and "localMatrixDirty (objs s' this)" and "worldMatrixDirty (objs s' this)"
      and "aabbDirty (objs s' this)" and "obbDirty (objs s' this)"
      using res t2 by (simp_all add: imageDirty_def q2_def)
  }
  {
    assume h: "descending s d \<and> d this < fuel \<and> parentChain s ns \<and> hd ns = this
        \<and> length ns \<le> fuel"
    have d0: "descending s0 d" and c0: "parentChain s0 ns"
      using h descending_cong[of s0 s d] parentChain_cong[of s0 s ns] shape0 by simp_all
    obtain a b where a: "setLocalMatrixDirty fuel this s0 = Some a"
      and b: "setBoundaryDirty fuel this a = Some b"
      using dirty_tail_total[OF d0 _ c0] h by blast
    have "flagsOnly s0 b" using dirty_tail[OF a b] by simp
    then have f1: "flagsOnly s0 (imageDirty b)"
      using flagsOnly_imageDirty flagsOnly_trans by blast
    have "descending (imageDirty b) d" "parentChain (imageDirty b) ns"
      using d0 c0 f1 by (simp_all add: flagsOnly_descending flagsOnly_parentChain)
    then obtain s2 s3 where "setLocalMatrixDirty fuel this (imageDirty b) = Some s2"
      "setBoundaryDirty fuel this s2 = Some s3"
      using dirty_tail_total[of "imageDirty b" d this fuel ns] h by blast
    then show "\<exists>t. rotate M fuel this (ax, ay, az) angle s = Some (this, t)"
      using a b by (simp add: unfold)
  }
qed

theorem rotate_right_multiplies_witness:
  "descending tilted (\<lambda>r. 0) \<and> parentChain tilted [0]
   \<and> (\<exists>t. rotate someMath (Suc 0) 0 (0, 1, 0) 180 tilted = Some (0, t)
          \<and> quaternion (objs t 0)
              = mulQuaternions (sqrt 2 / 2, 0, 0, sqrt 2 / 2)
                  (angleAxisToQuaternion (0, 1, 0, 180 * DEGTORAD))
          \<and> localMatrixDirty (objs t 0) \<and> aabbDirty (objs t 0) \<and> obbDirty (objs t 0))"
proof -
  have cl: "childList (objs tilted r) = []" for r
    by (simp add: tilted_def emptyState_def newObject_def)
  have d: "descending tilted (\<lambda>r. 0)" by (simp add: descending_def cl)
  have p: "parentChain tilted [0]" by (simp add: tilted_def emptyState_def newObject_def)
  have q: "quaternion (objs tilted 0) = (sqrt 2 / 2, 0, 0, sqrt 2 / 2)"
    by (simp add: tilted_def)
  obtain t where t: "rotate someMath (Suc 0) 0 (0, 1, 0) 180 tilted = Some (0, t)"
    using rotate_right_multiplies[of someMath "Suc 0" 0 0 1 0 180 tilted 0 tilted "\<lambda>r. 0" "[0]"]
      d p by auto
  show ?thesis
    using rotate_right_multiplies[of someMath "Suc 0" 0 0 1 0 180 tilted 0 t "\<lambda>r. 0" "[0]"]
      d p q t by simp
qed

text \<open>
  C9. A construction whose configuration gives a quaternion and no matrix ignores the
  quaternion: the branch that tests \<^verbatim>\<open>cfg.quaternion\<close> is empty and skips the rotation
  setter, and nothing that follows in \<^verbatim>\<open>_init\<close> writes the rotation. Whenever \<^verbatim>\<open>_init\<close>
  returns, the node has the identity quaternion and zero Euler angles, whatever quaternion
  was given; and \<^verbatim>\<open>_init\<close> returns when the configuration names no children and no
  parent.
\<close>

theorem init_ignores_quaternion:
  "cfg_matrix c = None \<and> cfg_quaternion c = Some q \<longrightarrow>
     (\<forall>s'. init M fuel this c s = Some s' \<longrightarrow>
         quaternion (objs s' this) = identityQuaternion \<and> rotation (objs s' this) = vec3zero)
   \<and> (cfg_children c = [] \<and> cfg_parent c = None \<longrightarrow>
         (\<exists>s'. init M (Suc fuel) this c s = Some s'))"
proof (intro impI conjI allI)
  fix s'
  assume "cfg_matrix c = None \<and> cfg_quaternion c = Some q" and "init M fuel this c s = Some s'"
  then have "rotOf s' this = (identityQuaternion, vec3zero)" using init_rotOf by blast
  then show "quaternion (objs s' this) = identityQuaternion"
    and "rotation (objs s' this) = vec3zero"
    by (simp_all add: rotOf_def)
next
  assume "cfg_matrix c = None \<and> cfg_quaternion c = Some q"
    and "cfg_children c = [] \<and> cfg_parent c = None"
  then show "\<exists>s'. init M (Suc fuel) this c s = Some s'" using sole_init by blast
qed

theorem init_ignores_quaternion_witness:
  "cfg_matrix (emptyCfg\<lparr>cfg_quaternion := Some (1, 0, 0, 0)\<rparr>) = None
   \<and> cfg_quaternion (emptyCfg\<lparr>cfg_quaternion := Some (1, 0, 0, 0)\<rparr>) = Some (1, 0, 0, 0)
   \<and> (\<exists>s'. init someMath (Suc 0) 0 (emptyCfg\<lparr>cfg_quaternion := Some (1, 0, 0, 0)\<rparr>) emptyState
            = Some s'
          \<and> quaternion (objs s' 0) = (0, 0, 0, 1) \<and> rotation (objs s' 0) = (0, 0, 0))"
proof -
  define c where "c = emptyCfg\<lparr>cfg_quaternion := Some (1, 0, 0, 0)\<rparr>"
  have h: "cfg_matrix c = None \<and> cfg_quaternion c = Some (1, 0, 0, 0)"
    "cfg_children c = [] \<and> cfg_parent c = None"
    by (simp_all add: c_def emptyCfg_def)
  obtain s' where s': "init someMath (Suc 0) 0 c emptyState = Some s'"
    using init_ignores_quaternion[of c "(1, 0, 0, 0)" someMath 0 0 emptyState] h by blast
  have "quaternion (objs s' 0) = identityQuaternion \<and> rotation (objs s' 0) = vec3zero"
    using init_ignores_quaternion[of c "(1, 0, 0, 0)" someMath "Suc 0" 0 emptyState] h s' by blast
  then show ?thesis
    using h s' unfolding c_def by (simp add: identityQuaternion_def vec3zero_def)
qed

end
